theory Spec2Isabelle
  imports Complex_Main
begin

section \<open>Python numbers\<close>

text \<open>
  The program is Python on top of numpy.  Three kinds of number flow through it:
  unbounded integers, IEEE binary64 floats and exact \<^verbatim>\<open>Fraction\<close>s.  An integer is an
  \<^typ>\<open>int\<close>, a \<^verbatim>\<open>Fraction\<close> is a \<^typ>\<open>rat\<close>, and a finite float is the rational number
  it denotes.  A float that is not finite (an infinity or a NaN) is \<open>PyNonFinite\<close>: in
  this program such a value is never divided by and never compared but in the volume
  assertion and in \<^verbatim>\<open>== 0\<close>, so whatever is computed from one is not finite either, and
  both comparisons are false of it.
\<close>

datatype error =
    ValueError | AssertionError | ZeroDivisionError | TypeError | OverflowError
  | OSError | WaveError | StructError

datatype pynum = PyInt int | PyFloat rat | PyNonFinite

text \<open>The value of a finite number; a non-finite float has none.\<close>

fun py_val :: "pynum \<Rightarrow> rat" where
  "py_val (PyInt k) = of_int k"
| "py_val (PyFloat x) = x"

fun is_finite :: "pynum \<Rightarrow> bool" where
  "is_finite (PyInt k) = True"
| "is_finite (PyFloat x) = True"
| "is_finite PyNonFinite = False"

text \<open>\<^verbatim>\<open>lo <= x <= hi\<close> for finite bounds.\<close>

fun py_between :: "rat \<Rightarrow> pynum \<Rightarrow> rat \<Rightarrow> bool" where
  "py_between lo (PyInt k) hi = (lo \<le> of_int k \<and> of_int k \<le> hi)"
| "py_between lo (PyFloat x) hi = (lo \<le> x \<and> x \<le> hi)"
| "py_between lo PyNonFinite hi = False"

text \<open>
  Rounding to binary64.  \<open>expo x\<close> is the binary exponent of a positive rational
  (\<open>2 ^ expo x \<le> x < 2 ^ (expo x + 1)\<close>), \<open>ulp x\<close> the spacing of the doubles around
  \<open>x\<close> (53 significant bits, subnormals below \<open>2 ^ - 1022\<close>), and \<open>round_half_even\<close> the
  rounding of C's \<^verbatim>\<open>rint\<close>, which is also numpy's \<^verbatim>\<open>np.round\<close>.  \<open>round_to_double\<close>
  rounds to the nearest value of that grid, ties to even, with no bound on the
  exponent: this is how IEEE 754 rounds before it tests for overflow.  \<open>finite64\<close> is
  that test, and \<open>to_double\<close> the float an exact result becomes: the rounded value, or
  an infinity when the rounded value is \<open>2 ^ 1024\<close> or beyond.
\<close>

definition pow2 :: "int \<Rightarrow> rat" where
  "pow2 k = (if 0 \<le> k then 2 ^ nat k else 1 / 2 ^ nat (- k))"

function expo_up :: "rat \<Rightarrow> int" where
  "expo_up x = (if 2 \<le> x then expo_up (x / 2) + 1 else 0)"
  by pat_completeness auto
termination
proof (relation "measure (\<lambda>x. nat \<lfloor>x\<rfloor>)")
  show "wf (measure (\<lambda>x::rat. nat \<lfloor>x\<rfloor>))"
    by simp
next
  fix x :: rat
  assume x2: "2 \<le> x"
  have "x / 2 \<le> x - 1" using x2 by simp
  then have "\<lfloor>x / 2\<rfloor> \<le> \<lfloor>x - 1\<rfloor>" by (rule floor_mono)
  then have b: "\<lfloor>x / 2\<rfloor> < \<lfloor>x\<rfloor>" by simp
  have "0 < \<lfloor>x\<rfloor>" using x2 by simp
  with b show "(x / 2, x) \<in> measure (\<lambda>x. nat \<lfloor>x\<rfloor>)"
    by simp
qed

function expo_down :: "rat \<Rightarrow> int" where
  "expo_down x = (if 0 < x \<and> x < 1 then expo_down (x * 2) - 1 else 0)"
  by pat_completeness auto
termination
proof (relation "measure (\<lambda>x. nat \<lceil>1 / x\<rceil>)")
  show "wf (measure (\<lambda>x::rat. nat \<lceil>1 / x\<rceil>))"
    by simp
next
  fix x :: rat
  assume h: "0 < x \<and> x < 1"
  then have pos: "0 < x" and x1: "x < 1" by simp_all
  have "1 < 1 / x" using pos x1 by simp
  then have c2: "2 \<le> \<lceil>1 / x\<rceil>" by (simp add: less_ceiling_iff[symmetric])
  have "1 / x \<le> of_int \<lceil>1 / x\<rceil>" by (rule le_of_int_ceiling)
  then have "1 / (x * 2) \<le> of_int \<lceil>1 / x\<rceil> / 2"
    by simp
  also have "\<dots> \<le> of_int (\<lceil>1 / x\<rceil> - 1)"
  proof -
    have "(of_int \<lceil>1 / x\<rceil> :: rat) / 2 \<le> of_int \<lceil>1 / x\<rceil> - 1"
      using c2 by (simp add: field_simps) 
    then show ?thesis by simp
  qed
  finally have "\<lceil>1 / (x * 2)\<rceil> \<le> \<lceil>1 / x\<rceil> - 1"
    by (simp only: ceiling_le_iff)
  with c2 have "nat \<lceil>1 / (x * 2)\<rceil> < nat \<lceil>1 / x\<rceil>"
    by linarith
  then show "(x * 2, x) \<in> measure (\<lambda>x. nat \<lceil>1 / x\<rceil>)"
    by (simp only: in_measure)
qed

definition expo :: "rat \<Rightarrow> int" where
  "expo x = (if 1 \<le> x then expo_up x else expo_down x)"

definition round_half_even :: "rat \<Rightarrow> int" where
  "round_half_even x =
     (let f = \<lfloor>x\<rfloor>; d = x - of_int f
      in if d < 1 / 2 then f
         else if 1 / 2 < d then f + 1
         else if even f then f else f + 1)"

definition ulp :: "rat \<Rightarrow> rat" where
  "ulp x = pow2 (max (expo \<bar>x\<bar>) (- 1022) - 52)"

definition round_to_double :: "rat \<Rightarrow> rat" where
  "round_to_double x = of_int (round_half_even (x / ulp x)) * ulp x"

definition finite64 :: "rat \<Rightarrow> bool" where
  "finite64 x = (\<bar>x\<bar> < 2 ^ 1024)"

definition to_double :: "rat \<Rightarrow> pynum" where
  "to_double x =
     (if finite64 (round_to_double x) then PyFloat (round_to_double x) else PyNonFinite)"

text \<open>
  Python's arithmetic on the scalars.  \<^verbatim>\<open>int * int\<close> is exact.  \<^verbatim>\<open>int * float\<close> converts
  the integer first, correctly rounded, and raises \<^verbatim>\<open>OverflowError\<close> when the integer is
  too large for a double (\<open>mul_raises\<close>); the product of two floats is rounded and may be
  infinite.  numpy converts the integers it meets in the same way (\<open>py_float\<close>); in
  this program such an integer is finite as a double wherever an array has an element
  to combine it with (see \<open>index_array\<close>).
\<close>

fun py_float :: "pynum \<Rightarrow> pynum" where
  "py_float (PyInt k) = to_double (of_int k)"
| "py_float (PyFloat x) = PyFloat x"
| "py_float PyNonFinite = PyNonFinite"

fun float_mul :: "pynum \<Rightarrow> pynum \<Rightarrow> pynum" where
  "float_mul (PyFloat x) (PyFloat y) = to_double (x * y)"
| "float_mul a b = PyNonFinite"

fun float_div :: "pynum \<Rightarrow> pynum \<Rightarrow> pynum" where
  "float_div (PyFloat x) (PyFloat y) = (if y = 0 then PyNonFinite else to_double (x / y))"
| "float_div a b = PyNonFinite"

fun int_too_large :: "pynum \<Rightarrow> bool" where
  "int_too_large (PyInt k) = (2 ^ 1024 \<le> \<bar>round_to_double (of_int k)\<bar>)"
| "int_too_large a = False"

fun mul_raises :: "pynum \<Rightarrow> pynum \<Rightarrow> bool" where
  "mul_raises (PyInt a) (PyInt b) = False"
| "mul_raises a b = (int_too_large a \<or> int_too_large b)"

fun py_mul :: "pynum \<Rightarrow> pynum \<Rightarrow> pynum" where
  "py_mul (PyInt a) (PyInt b) = PyInt (a * b)"
| "py_mul a b = float_mul (py_float a) (py_float b)"

fun py_neg :: "pynum \<Rightarrow> pynum" where
  "py_neg (PyInt a) = PyInt (- a)"
| "py_neg (PyFloat x) = PyFloat (- x)"
| "py_neg PyNonFinite = PyNonFinite"

definition trunc :: "rat \<Rightarrow> int" where
  "trunc y = (if 0 \<le> y then \<lfloor>y\<rfloor> else \<lceil>y\<rceil>)"

text \<open>
  C's \<^verbatim>\<open>fmod\<close> is exact.  \<open>float_floordiv\<close> and \<open>float_mod\<close> follow CPython's
  \<^verbatim>\<open>_float_div_mod\<close> and \<^verbatim>\<open>float_rem\<close> statement by statement, for finite operands; both
  raise \<^verbatim>\<open>ZeroDivisionError\<close> on a zero divisor, which the caller checks first.  Of the
  operations of \<^verbatim>\<open>_float_div_mod\<close> only the division \<^verbatim>\<open>(vx - mod) / wx\<close> can overflow; the
  quotient is then infinite, and so is the result.
\<close>

definition fmod :: "rat \<Rightarrow> rat \<Rightarrow> rat" where
  "fmod vx wx = vx - wx * of_int (trunc (vx / wx))"

definition float_floordiv :: "rat \<Rightarrow> rat \<Rightarrow> pynum" where
  "float_floordiv vx wx =
     (let m = fmod vx wx;
          d0 = round_to_double (round_to_double (vx - m) / wx);
          d = (if m = 0 then d0
               else if (wx < 0) = (m < 0) then d0
               else round_to_double (d0 - 1))
      in if finite64 d0 then
           if d = 0 then PyFloat 0
           else let f = of_int \<lfloor>d\<rfloor>
                in if 1 / 2 < round_to_double (d - f) then PyFloat (round_to_double (f + 1))
                   else PyFloat f
         else PyNonFinite)"

definition float_mod :: "rat \<Rightarrow> rat \<Rightarrow> rat" where
  "float_mod vx wx =
     (let m = fmod vx wx
      in if m = 0 then 0
         else if (wx < 0) = (m < 0) then m
         else round_to_double (m + wx))"

text \<open>
  \<^verbatim>\<open>x // q\<close>, \<^verbatim>\<open>x % 2\<close> and \<^verbatim>\<open>x == 0\<close> for an array element \<open>x\<close> and a \<^verbatim>\<open>Fraction\<close> \<open>q\<close>.
  numpy evaluates the division element by element on Python objects.  For an integer
  element \<^verbatim>\<open>Fraction.__rfloordiv__\<close> divides exactly; for a float element it falls back
  to \<^verbatim>\<open>float(x) // float(q)\<close>, where \<^verbatim>\<open>float(q)\<close> raises \<^verbatim>\<open>OverflowError\<close> when \<open>q\<close> is too
  large for a double (\<open>divisor_too_large\<close>).  \<open>floordiv_divisor\<close> is the divisor of the
  division that is carried out.  The remainder of an infinite quotient is a NaN, which
  equals nothing.
\<close>

fun py_floordiv_fraction :: "pynum \<Rightarrow> rat \<Rightarrow> pynum" where
  "py_floordiv_fraction (PyInt n) q = PyInt \<lfloor>of_int n / q\<rfloor>"
| "py_floordiv_fraction (PyFloat x) q = float_floordiv x (round_to_double q)"
| "py_floordiv_fraction PyNonFinite q = PyNonFinite"

fun floordiv_divisor :: "pynum \<Rightarrow> rat \<Rightarrow> rat" where
  "floordiv_divisor (PyInt n) q = q"
| "floordiv_divisor a q = round_to_double q"

fun divisor_too_large :: "pynum \<Rightarrow> rat \<Rightarrow> bool" where
  "divisor_too_large (PyInt n) q = False"
| "divisor_too_large a q = (2 ^ 1024 \<le> \<bar>round_to_double q\<bar>)"

fun py_mod2 :: "pynum \<Rightarrow> pynum" where
  "py_mod2 (PyInt n) = PyInt (n mod 2)"
| "py_mod2 (PyFloat x) = PyFloat (float_mod x 2)"
| "py_mod2 PyNonFinite = PyNonFinite"

fun py_is_zero :: "pynum \<Rightarrow> bool" where
  "py_is_zero (PyInt n) = (n = 0)"
| "py_is_zero (PyFloat x) = (x = 0)"
| "py_is_zero PyNonFinite = False"

section \<open>numpy arrays\<close>

text \<open>
  A dtype is what the program reads of it: \<^verbatim>\<open>kind\<close> (\<^verbatim>\<open>'i'\<close> signed, \<^verbatim>\<open>'u'\<close> unsigned,
  \<^verbatim>\<open>'f'\<close> float), \<^verbatim>\<open>itemsize\<close> in bytes and \<^verbatim>\<open>byteorder\<close>: \<^verbatim>\<open>'='\<close> native, \<^verbatim>\<open>'|'\<close> for one
  byte, \<^verbatim>\<open>'<'\<close> or \<^verbatim>\<open>'>'\<close> only for the order that is not the machine's.  An integer
  array is its dtype, its number of dimensions and its elements as numpy reads them
  through the dtype.
\<close>

record np_dtype =
  kind :: char
  itemsize :: nat
  byteorder :: char

record ndarray =
  dtype :: np_dtype
  ndim :: nat
  data :: "int list"

text \<open>
  \<^verbatim>\<open>np.arange(stop)\<close>: for an integer \<open>stop\<close> the integers below it, for a float the
  doubles \<open>0.0, 1.0, ...\<close> below it; \<open>ceil(stop)\<close> elements, none when \<open>stop \<le> 0\<close>.
  The list holds the elements of the intermediate array, integer or float.  numpy takes
  the length from the double \<^verbatim>\<open>stop / 1\<close> and raises \<^verbatim>\<open>OverflowError\<close> when that is
  infinite or lies outside the range of its index type (\<open>arange_raises\<close>), so an index
  array has no more than \<open>2 ^ 63\<close> elements; memory is not bounded otherwise.  For a
  NaN, which only a duration that is not finite produces, numpy raises \<^verbatim>\<open>ValueError\<close>;
  \<open>PyNonFinite\<close> does not tell the two apart, and \<open>OverflowError\<close> stands for both.
\<close>

definition np_arange_size :: "pynum \<Rightarrow> nat" where
  "np_arange_size stop =
     (case stop of PyInt k \<Rightarrow> nat k | PyFloat x \<Rightarrow> nat \<lceil>x\<rceil> | PyNonFinite \<Rightarrow> 0)"

fun np_arange_item :: "pynum \<Rightarrow> nat \<Rightarrow> pynum" where
  "np_arange_item (PyInt k) n = PyInt (int n)"
| "np_arange_item a n = PyFloat (round_to_double (of_nat n))"

definition arange_raises :: "pynum \<Rightarrow> bool" where
  "arange_raises stop =
     (case py_float stop of
        PyFloat y \<Rightarrow> \<lceil>y\<rceil> < - (2 ^ 63) \<or> 2 ^ 63 < \<lceil>y\<rceil>
      | _ \<Rightarrow> True)"

definition np_arange :: "pynum \<Rightarrow> pynum list" where
  "np_arange stop = map (np_arange_item stop) [0..<np_arange_size stop]"

text \<open>
  \<^verbatim>\<open>np.round(a).astype(dtype)\<close>.  Rounding leaves integers alone and rounds floats
  half to even.  The cast wraps a 64-bit integer into the target width and truncates a
  float.  For a float whose integral part the target cannot hold, and for a NaN, C
  defines no result (\<open>castable\<close> is false): numpy stores what the machine's conversion
  leaves, some value of the target type, and goes on.  That value is the parameter
  \<open>c_cast\<close> of the platform, read through the target's width.
\<close>

fun np_round :: "pynum \<Rightarrow> pynum" where
  "np_round (PyInt a) = PyInt a"
| "np_round (PyFloat y) = PyFloat (of_int (round_half_even y))"
| "np_round PyNonFinite = PyNonFinite"

definition int_min :: "np_dtype \<Rightarrow> int" where
  "int_min dt = - (2 ^ (itemsize dt * 8 - 1))"

definition int_max :: "np_dtype \<Rightarrow> int" where
  "int_max dt = 2 ^ (itemsize dt * 8 - 1) - 1"

definition wrap :: "np_dtype \<Rightarrow> int \<Rightarrow> int" where
  "wrap dt a = (a - int_min dt) mod 2 ^ (itemsize dt * 8) + int_min dt"

fun castable :: "np_dtype \<Rightarrow> pynum \<Rightarrow> bool" where
  "castable dt (PyInt a) = True"
| "castable dt (PyFloat y) = (int_min dt \<le> trunc y \<and> trunc y \<le> int_max dt)"
| "castable dt PyNonFinite = False"

fun cast_item :: "(np_dtype \<Rightarrow> pynum \<Rightarrow> int) \<Rightarrow> np_dtype \<Rightarrow> pynum \<Rightarrow> int" where
  "cast_item c_cast dt (PyInt a) = wrap dt a"
| "cast_item c_cast dt (PyFloat y) =
     (if int_min dt \<le> trunc y \<and> trunc y \<le> int_max dt then trunc y
      else wrap dt (c_cast dt (PyFloat y)))"
| "cast_item c_cast dt PyNonFinite = wrap dt (c_cast dt PyNonFinite)"

definition astype :: "(np_dtype \<Rightarrow> pynum \<Rightarrow> int) \<Rightarrow> pynum list \<Rightarrow> np_dtype \<Rightarrow> ndarray" where
  "astype c_cast xs dt = \<lparr>dtype = dt, ndim = 1, data = map (cast_item c_cast dt) xs\<rparr>"

text \<open>
  On x86-64 the conversion of an out-of-range double or a NaN to a 32-bit or 64-bit
  integer yields the most negative value of that width.
\<close>

definition integer_indefinite :: "np_dtype \<Rightarrow> pynum \<Rightarrow> int" where
  "integer_indefinite dt p = int_min dt"

text \<open>
  \<^verbatim>\<open>a.byteswap()\<close> reverses the bytes of every element and keeps the dtype, so numpy
  reads each element as the integer whose two's complement bytes are the reversed ones.
\<close>

definition le_bytes :: "nat \<Rightarrow> int \<Rightarrow> int list" where
  "le_bytes w v = map (\<lambda>i. (v div 256 ^ i) mod 256) [0..<w]"

definition from_le_bytes :: "int list \<Rightarrow> int" where
  "from_le_bytes bs = foldr (\<lambda>b acc. b + 256 * acc) bs 0"

definition to_signed :: "nat \<Rightarrow> int \<Rightarrow> int" where
  "to_signed w u = (if u < 2 ^ (w * 8 - 1) then u else u - 2 ^ (w * 8))"

definition byteswap_int :: "nat \<Rightarrow> int \<Rightarrow> int" where
  "byteswap_int w v = to_signed w (from_le_bytes (rev (le_bytes w v)))"

definition byteswap :: "ndarray \<Rightarrow> ndarray" where
  "byteswap a = a\<lparr>data := map (byteswap_int (itemsize (dtype a))) (data a)\<rparr>"

section \<open>The wave container\<close>

text \<open>
  \<^verbatim>\<open>class MonoWave\<close>.  The constructor asserts a signed integer dtype and one dimension,
  swaps the bytes of an array whose dtype is not tagged native, builds a view with the
  native dtype and drops it (the statement \<^verbatim>\<open>samples.view(...)\<close> assigns nothing), and
  stores the array, the rate, \<^verbatim>\<open>Fraction(1, framerate)\<close> and \<^verbatim>\<open>samples.size * step\<close>.
\<close>

record MonoWave =
  samples :: ndarray
  framerate :: int
  step :: rat
  duration :: rat

definition MonoWave_init :: "ndarray \<Rightarrow> int \<Rightarrow> error + MonoWave" where
  "MonoWave_init a fr =
     (if kind (dtype a) = CHR ''i'' then
        if ndim a = 1 then
          (let s = (if byteorder (dtype a) = CHR ''='' then a else byteswap a)
           in if fr = 0 then Inl ZeroDivisionError
              else Inr \<lparr>samples = s, framerate = fr, step = Fract 1 fr,
                        duration = of_nat (length (data s)) * Fract 1 fr\<rparr>)
        else Inl AssertionError
      else Inl AssertionError)"

text \<open>
  The two methods act on the world outside the object: the plotting library's current
  figure, written as the list of calls made, and the file system.  Each returns the
  object as the call leaves it, next to the exception raised, if any, and the world it
  leaves.  \<^verbatim>\<open>wave.open\<close> fails on a path that cannot be opened and creates the file
  otherwise; \<^verbatim>\<open>setsampwidth\<close> accepts 1 to 4 bytes and \<^verbatim>\<open>setframerate\<close> a positive rate;
  the header holds the rate, the byte rate and the data length as unsigned 32-bit
  fields, and \<^verbatim>\<open>struct.pack\<close> raises \<^verbatim>\<open>struct.error\<close> on a larger value.  An exception
  after the file was opened leaves a file that is no WAV file (\<open>Incomplete\<close>).  A
  complete file is its header fields and the array handed to \<^verbatim>\<open>writeframes\<close>; how the
  WAV writer lays the frames out is its own matter.
\<close>

datatype plt_call =
    Figure | Xlim rat rat | Title string | Xlabel string | Scatter "rat list" ndarray | Show

record wav_file =
  nchannels :: nat
  sampwidth :: nat
  wav_framerate :: int
  comptype :: string
  frames :: ndarray

datatype disk_file = Incomplete | WavFile wav_file

record world =
  plt :: "plt_call list"
  filesystem :: "string \<Rightarrow> disk_file option"
  writable :: "string \<Rightarrow> bool"

definition MonoWave_show :: "MonoWave \<Rightarrow> string \<Rightarrow> world \<Rightarrow> MonoWave \<times> world" where
  "MonoWave_show self title w =
     (self,
      w\<lparr>plt := plt w
          @ [Figure, Xlim 0 (round_to_double (256 / of_int (framerate self)))]
          @ (if title = [] then [] else [Title title])
          @ [Xlabel ''time (s)'',
             Scatter (map (\<lambda>k. of_nat k * step self)
                        [0..<nat \<lceil>round_to_double (duration self / step self)\<rceil>])
                     (samples self),
             Show]\<rparr>)"

definition header_fits :: "MonoWave \<Rightarrow> bool" where
  "header_fits self =
     (framerate self < 2 ^ 32
      \<and> framerate self * int (itemsize (dtype (samples self))) < 2 ^ 32
      \<and> 36 + int (length (data (samples self))) * int (itemsize (dtype (samples self)))
          < 2 ^ 32)"

definition MonoWave_save ::
  "MonoWave \<Rightarrow> string \<Rightarrow> world \<Rightarrow> MonoWave \<times> error option \<times> world" where
  "MonoWave_save self filename w =
     (self,
      if writable w filename then
        if 1 \<le> itemsize (dtype (samples self)) \<and> itemsize (dtype (samples self)) \<le> 4 then
          if 0 < framerate self then
            if header_fits self then
              (None, w\<lparr>filesystem := (filesystem w)(filename \<mapsto> WavFile
                   \<lparr>nchannels = 1, sampwidth = itemsize (dtype (samples self)),
                    wav_framerate = framerate self, comptype = ''NONE'',
                    frames = samples self\<rparr>)\<rparr>)
            else (Some StructError, w\<lparr>filesystem := (filesystem w)(filename \<mapsto> Incomplete)\<rparr>)
          else (Some WaveError, w\<lparr>filesystem := (filesystem w)(filename \<mapsto> Incomplete)\<rparr>)
        else (Some WaveError, w\<lparr>filesystem := (filesystem w)(filename \<mapsto> Incomplete)\<rparr>)
      else (Some OSError, w))"

section \<open>The generators\<close>

text \<open>
  Both constructors take \<^verbatim>\<open>(frequency, dtype, framerate, duration, volume)\<close>.  The
  frequency, the duration and the volume are Python numbers; the rate is an integer, as
  \<^verbatim>\<open>Fraction(1, framerate)\<close> requires.  \<^verbatim>\<open>amplitude\<close> is
  \<^verbatim>\<open>(2 ** (dtype.itemsize * 8 - 1) - 1) * volume\<close>, and the index array is
  \<^verbatim>\<open>np.arange(duration * framerate)\<close>; \<open>amplitude_raises\<close> and the \<open>Inl\<close> of
  \<open>index_array\<close> are the exceptions of these two lines.
\<close>

definition amplitude :: "np_dtype \<Rightarrow> pynum \<Rightarrow> pynum" where
  "amplitude dt volume = py_mul (PyInt (2 ^ (itemsize dt * 8 - 1) - 1)) volume"

definition amplitude_raises :: "np_dtype \<Rightarrow> pynum \<Rightarrow> bool" where
  "amplitude_raises dt volume = mul_raises (PyInt (2 ^ (itemsize dt * 8 - 1) - 1)) volume"

definition index_array :: "pynum \<Rightarrow> int \<Rightarrow> error + pynum list" where
  "index_array d fr =
     (if mul_raises d (PyInt fr) then Inl OverflowError
      else if arange_raises (py_mul d (PyInt fr)) then Inl OverflowError
      else Inr (np_arange (py_mul d (PyInt fr))))"

text \<open>\<^verbatim>\<open>math.tau\<close>, the double nearest to \<open>2\<pi>\<close>.\<close>

definition tau :: rat where
  "tau = 884279719003555 / 140737488355328"

text \<open>
  \<^verbatim>\<open>class SimpleHarmonicWave\<close>.  The platform's \<^verbatim>\<open>np.sin\<close> on finite doubles is the
  parameter \<open>np_sin\<close>: C leaves its last bit open.  The sine of an infinity or a NaN is a
  NaN.  \<open>harmonic_phase_item\<close> is one element of \<^verbatim>\<open>tau * frequency * samples / framerate\<close>,
  \<open>w\<close> being the scalar \<^verbatim>\<open>tau * frequency\<close>, and \<open>harmonic_value\<close> one element of
  \<^verbatim>\<open>amplitude * np.sin(...)\<close>.
\<close>

definition np_sin_of :: "(rat \<Rightarrow> rat) \<Rightarrow> pynum \<Rightarrow> pynum" where
  "np_sin_of np_sin t = (case py_float t of PyFloat x \<Rightarrow> PyFloat (np_sin x) | _ \<Rightarrow> PyNonFinite)"

definition harmonic_phase_item :: "pynum \<Rightarrow> int \<Rightarrow> pynum \<Rightarrow> pynum" where
  "harmonic_phase_item w fr x = float_div (float_mul w (py_float x)) (py_float (PyInt fr))"

definition harmonic_value :: "(rat \<Rightarrow> rat) \<Rightarrow> pynum \<Rightarrow> pynum \<Rightarrow> pynum" where
  "harmonic_value np_sin amp t = float_mul (py_float amp) (np_sin_of np_sin t)"

text \<open>Lines 62 and 63: the array handed to \<^verbatim>\<open>np.sin\<close>.\<close>

definition harmonic_phase :: "pynum \<Rightarrow> int \<Rightarrow> pynum \<Rightarrow> error + pynum list" where
  "harmonic_phase frequency fr d =
     (case index_array d fr of
        Inl e \<Rightarrow> Inl e
      | Inr xs \<Rightarrow>
          if mul_raises (PyFloat tau) frequency then Inl OverflowError
          else Inr (map (harmonic_phase_item (py_mul (PyFloat tau) frequency) fr) xs))"

text \<open>Lines 60 to 64, up to \<^verbatim>\<open>np.round(samples)\<close>: the array that is cast.\<close>

definition SimpleHarmonicWave_rounded ::
  "(rat \<Rightarrow> rat) \<Rightarrow> pynum \<Rightarrow> np_dtype \<Rightarrow> int \<Rightarrow> pynum \<Rightarrow> pynum \<Rightarrow> error + pynum list" where
  "SimpleHarmonicWave_rounded np_sin frequency dt fr d volume =
     (if py_between 0 volume 1 then
        if amplitude_raises dt volume then Inl OverflowError
        else
          case harmonic_phase frequency fr d of
            Inl e \<Rightarrow> Inl e
          | Inr ts \<Rightarrow>
              Inr (map (\<lambda>t. np_round (harmonic_value np_sin (amplitude dt volume) t)) ts)
      else Inl AssertionError)"

text \<open>Lines 60 to 64: the buffer handed to \<^verbatim>\<open>MonoWave.__init__\<close>.\<close>

definition SimpleHarmonicWave_samples ::
  "(rat \<Rightarrow> rat) \<Rightarrow> (np_dtype \<Rightarrow> pynum \<Rightarrow> int) \<Rightarrow> pynum \<Rightarrow> np_dtype \<Rightarrow> int \<Rightarrow> pynum \<Rightarrow> pynum
     \<Rightarrow> error + ndarray" where
  "SimpleHarmonicWave_samples np_sin c_cast frequency dt fr d volume =
     (case SimpleHarmonicWave_rounded np_sin frequency dt fr d volume of
        Inl e \<Rightarrow> Inl e
      | Inr ys \<Rightarrow> Inr (astype c_cast ys dt))"

definition SimpleHarmonicWave_init ::
  "(rat \<Rightarrow> rat) \<Rightarrow> (np_dtype \<Rightarrow> pynum \<Rightarrow> int) \<Rightarrow> pynum \<Rightarrow> np_dtype \<Rightarrow> int \<Rightarrow> pynum \<Rightarrow> pynum
     \<Rightarrow> error + MonoWave" where
  "SimpleHarmonicWave_init np_sin c_cast frequency dt fr d volume =
     (if kind dt = CHR ''i'' then
        case SimpleHarmonicWave_samples np_sin c_cast frequency dt fr d volume of
          Inl e \<Rightarrow> Inl e
        | Inr a \<Rightarrow> MonoWave_init a fr
      else Inl ValueError)"

text \<open>
  \<^verbatim>\<open>class SquareWave\<close>.  \<^verbatim>\<open>Fraction(1, frequency)\<close> raises \<^verbatim>\<open>TypeError\<close> on a float and
  \<^verbatim>\<open>ZeroDivisionError\<close> on zero.  One element of
  \<^verbatim>\<open>np.where(samples // samples_per_half_period % 2 == 0, amplitude, -amplitude)\<close>:
\<close>

definition square_item :: "rat \<Rightarrow> pynum \<Rightarrow> pynum \<Rightarrow> pynum" where
  "square_item samples_per_half_period amp x =
     (if py_is_zero (py_mod2 (py_floordiv_fraction x samples_per_half_period))
      then amp else py_neg amp)"

text \<open>Lines 78 to 83, up to \<^verbatim>\<open>np.round(samples)\<close>: the array that is cast.\<close>

definition SquareWave_rounded ::
  "pynum \<Rightarrow> np_dtype \<Rightarrow> int \<Rightarrow> pynum \<Rightarrow> pynum \<Rightarrow> error + pynum list" where
  "SquareWave_rounded frequency dt fr d volume =
     (if py_between 0 volume 1 then
        if amplitude_raises dt volume then Inl OverflowError
        else
          case index_array d fr of
            Inl e \<Rightarrow> Inl e
          | Inr xs \<Rightarrow>
              (case frequency of
                 PyInt f \<Rightarrow>
                   if f = 0 then Inl ZeroDivisionError
                   else
                     let samples_per_half_period = Fract 1 f * of_int fr / 2
                     in if list_ex (\<lambda>x. divisor_too_large x samples_per_half_period) xs
                        then Inl OverflowError
                        else if list_ex (\<lambda>x. floordiv_divisor x samples_per_half_period = 0) xs
                        then Inl ZeroDivisionError
                        else Inr (map (\<lambda>x. np_round
                               (square_item samples_per_half_period (amplitude dt volume) x)) xs)
               | _ \<Rightarrow> Inl TypeError)
      else Inl AssertionError)"

text \<open>Lines 78 to 83: the buffer handed to \<^verbatim>\<open>MonoWave.__init__\<close>.\<close>

definition SquareWave_samples ::
  "(np_dtype \<Rightarrow> pynum \<Rightarrow> int) \<Rightarrow> pynum \<Rightarrow> np_dtype \<Rightarrow> int \<Rightarrow> pynum \<Rightarrow> pynum
     \<Rightarrow> error + ndarray" where
  "SquareWave_samples c_cast frequency dt fr d volume =
     (case SquareWave_rounded frequency dt fr d volume of
        Inl e \<Rightarrow> Inl e
      | Inr ys \<Rightarrow> Inr (astype c_cast ys dt))"

definition SquareWave_init ::
  "(np_dtype \<Rightarrow> pynum \<Rightarrow> int) \<Rightarrow> pynum \<Rightarrow> np_dtype \<Rightarrow> int \<Rightarrow> pynum \<Rightarrow> pynum
     \<Rightarrow> error + MonoWave" where
  "SquareWave_init c_cast frequency dt fr d volume =
     (if kind dt = CHR ''i'' then
        case SquareWave_samples c_cast frequency dt fr d volume of
          Inl e \<Rightarrow> Inl e
        | Inr a \<Rightarrow> MonoWave_init a fr
      else Inl ValueError)"

text \<open>The dtypes the program and its specification name.\<close>

definition int8 :: np_dtype where
  "int8 = \<lparr>kind = CHR ''i'', itemsize = 1, byteorder = CHR ''|''\<rparr>"

definition int16 :: np_dtype where
  "int16 = \<lparr>kind = CHR ''i'', itemsize = 2, byteorder = CHR ''=''\<rparr>"

definition int64 :: np_dtype where
  "int64 = \<lparr>kind = CHR ''i'', itemsize = 8, byteorder = CHR ''=''\<rparr>"

definition uint8 :: np_dtype where
  "uint8 = \<lparr>kind = CHR ''u'', itemsize = 1, byteorder = CHR ''|''\<rparr>"

definition float32 :: np_dtype where
  "float32 = \<lparr>kind = CHR ''f'', itemsize = 4, byteorder = CHR ''=''\<rparr>"

definition int16_swapped :: np_dtype where
  "int16_swapped = \<lparr>kind = CHR ''i'', itemsize = 2, byteorder = CHR ''>''\<rparr>"

section \<open>Rounding stays below a representable bound\<close>

declare expo_up.simps [simp del]

declare expo_down.simps [simp del]

lemma expo_down_le0: "expo_down x \<le> 0"
proof (induction x rule: expo_down.induct)
  case (1 x)
  show ?case
  proof (cases "0 < x \<and> x < 1")
    case True
    then have "expo_down x = expo_down (x * 2) - 1"
      by (subst expo_down.simps) simp
    with 1[OF True] show ?thesis by simp
  next
    case False
    then have "expo_down x = 0"
      by (subst expo_down.simps) (simp only: if_False)
    then show ?thesis by simp
  qed
qed

lemma expo_up_bound: "1 \<le> x \<Longrightarrow> 0 \<le> expo_up x \<and> 2 ^ nat (expo_up x) \<le> x"
proof (induction x rule: expo_up.induct)
  case (1 x)
  show ?case
  proof (cases "2 \<le> x")
    case True
    have e: "expo_up x = expo_up (x / 2) + 1"
      using True by (subst expo_up.simps) simp
    have "1 \<le> x / 2" using True by simp
    from 1(1)[OF True this]
    have ih: "0 \<le> expo_up (x / 2)" "2 ^ nat (expo_up (x / 2)) \<le> x / 2"
      by simp_all
    have "nat (expo_up (x / 2) + 1) = Suc (nat (expo_up (x / 2)))"
      using ih(1) by simp
    then show ?thesis using ih e by simp
  next
    case False
    then have "expo_up x = 0"
      by (subst expo_up.simps) simp
    with 1(2) show ?thesis by simp
  qed
qed

lemma expo_le: "x < 2 ^ (53 + j) \<Longrightarrow> expo x \<le> 52 + int j"
proof (cases "1 \<le> x")
  case True
  assume lt: "x < 2 ^ (53 + j)"
  from expo_up_bound[OF True]
  have nn: "0 \<le> expo_up x" and le: "(2::rat) ^ nat (expo_up x) \<le> x"
    by simp_all
  from le lt have "(2::rat) ^ nat (expo_up x) < 2 ^ (53 + j)" by (rule le_less_trans)
  then have "nat (expo_up x) < 53 + j"
    using power_less_imp_less_exp[of "2::rat" "nat (expo_up x)" "53 + j"] by simp
  with nn True show ?thesis by (simp add: expo_def)
next
  case False
  then show ?thesis using expo_down_le0[of x] by (simp add: expo_def)
qed

lemma ulp_pos: "0 < ulp x"
  by (simp add: ulp_def pow2_def)

lemma ulp_divides: "\<bar>x\<bar> < 2 ^ (53 + j) \<Longrightarrow> \<exists>i. 2 ^ j / ulp x = 2 ^ i"
proof -
  assume "\<bar>x\<bar> < 2 ^ (53 + j)"
  then have "expo \<bar>x\<bar> \<le> 52 + int j" by (rule expo_le)
  define k where "k = max (expo \<bar>x\<bar>) (- 1022) - 52"
  have k: "k \<le> int j" using \<open>expo \<bar>x\<bar> \<le> 52 + int j\<close> by (simp add: k_def)
  show ?thesis
  proof (cases "0 \<le> k")
    case True
    then have u: "ulp x = 2 ^ nat k" by (simp add: ulp_def pow2_def k_def)
    have "nat k \<le> j" using k True by simp
    then have "(2::rat) ^ j / 2 ^ nat k = 2 ^ (j - nat k)" by (simp add: power_diff)
    then show ?thesis unfolding u by blast
  next
    case False
    then have u: "ulp x = 1 / 2 ^ nat (- k)" by (simp add: ulp_def pow2_def k_def)
    have "(2::rat) ^ j / (1 / 2 ^ nat (- k)) = 2 ^ (j + nat (- k))" by (simp add: power_add)
    then show ?thesis unfolding u by blast
  qed
qed

lemma round_half_even_le_ceiling: "round_half_even x \<le> \<lceil>x\<rceil>"
proof (cases "x = of_int \<lfloor>x\<rfloor>")
  case True
  then have "x - of_int \<lfloor>x\<rfloor> = 0" by simp
  then have "round_half_even x = \<lfloor>x\<rfloor>" by (simp add: round_half_even_def Let_def)
  then show ?thesis by simp
next
  case False
  then have "\<lceil>x\<rceil> = \<lfloor>x\<rfloor> + 1" by (metis ceiling_altdef)
  then show ?thesis by (simp add: round_half_even_def Let_def)
qed

lemma floor_le_round_half_even: "\<lfloor>x\<rfloor> \<le> round_half_even x"
  by (simp add: round_half_even_def Let_def)

lemma round_half_even_le: "x \<le> of_int n \<Longrightarrow> round_half_even x \<le> n"
proof -
  assume "x \<le> of_int n"
  then have "\<lceil>x\<rceil> \<le> n" by (simp only: ceiling_le_iff)
  with round_half_even_le_ceiling[of x] show ?thesis by simp
qed

lemma round_half_even_ge: "of_int n \<le> x \<Longrightarrow> n \<le> round_half_even x"
proof -
  assume "of_int n \<le> x"
  then have "n \<le> \<lfloor>x\<rfloor>" by (simp only: le_floor_iff)
  with floor_le_round_half_even[of x] show ?thesis by simp
qed

lemma round_half_even_of_int: "round_half_even (of_int k) = k"
  by (simp add: round_half_even_def)

lemma round_half_even_neg: "round_half_even (- x) = - round_half_even x"
proof (cases "x = of_int \<lfloor>x\<rfloor>")
  case True
  then obtain k where "x = of_int k" ..
  then show ?thesis
    using round_half_even_of_int[of k] round_half_even_of_int[of "- k"] by simp
next
  case False
  then have c: "\<lceil>x\<rceil> = \<lfloor>x\<rfloor> + 1" by (metis ceiling_altdef)
  have f: "\<lfloor>- x\<rfloor> = - \<lfloor>x\<rfloor> - 1" using c by (simp add: ceiling_def)
  have d: "x - of_int \<lfloor>x\<rfloor> \<noteq> (0::rat)" using False by simp
  show ?thesis
    unfolding round_half_even_def Let_def f
    by (auto simp: field_simps)
qed

lemma round_to_double_bound:
  assumes "0 \<le> m" and "m < 2 ^ 53" and "\<bar>x\<bar> \<le> of_int m * 2 ^ j"
  shows "\<bar>round_to_double x\<bar> \<le> of_int m * 2 ^ j"
proof -
  have "(of_int m :: rat) < of_int (2 ^ 53)" using assms(2) by (simp only: of_int_less_iff)
  then have "(of_int m :: rat) * 2 ^ j < of_int (2 ^ 53) * 2 ^ j"
    by (intro mult_strict_right_mono) simp_all
  with assms(3) have "\<bar>x\<bar> < of_int (2 ^ 53) * 2 ^ j" by (rule le_less_trans)
  then have "\<bar>x\<bar> < 2 ^ (53 + j)" by (simp add: power_add)
  then obtain i where i: "2 ^ j / ulp x = 2 ^ i" using ulp_divides by blast
  define u where "u = ulp x"
  have up: "0 < u" by (simp add: u_def ulp_pos)
  have ju: "(2::rat) ^ j = 2 ^ i * u" using i up by (simp add: u_def field_simps)
  have b: "of_int m * 2 ^ j / u = (of_int (m * 2 ^ i) :: rat)" using up by (simp add: ju)
  have "x / u \<le> of_int m * 2 ^ j / u"
    using assms(3) up by (intro divide_right_mono) simp_all
  then have hi: "round_half_even (x / u) \<le> m * 2 ^ i"
    unfolding b by (rule round_half_even_le)
  have "- (of_int m * 2 ^ j) \<le> x" using assms(3) by linarith
  then have "- (of_int m * 2 ^ j) / u \<le> x / u"
    using up by (intro divide_right_mono) simp_all
  then have "of_int (- (m * 2 ^ i)) \<le> x / u" using b by simp
  then have lo: "- (m * 2 ^ i) \<le> round_half_even (x / u)"
    by (rule round_half_even_ge)
  from hi lo have "\<bar>round_half_even (x / u)\<bar> \<le> m * 2 ^ i" by simp
  then have "\<bar>(of_int (round_half_even (x / u)) :: rat)\<bar> \<le> of_int (m * 2 ^ i)"
    by (simp only: of_int_abs[symmetric] of_int_le_iff)
  then have "\<bar>(of_int (round_half_even (x / u)) :: rat)\<bar> * u \<le> of_int (m * 2 ^ i) * u"
    using up by (intro mult_right_mono) simp_all
  then show ?thesis
    using up by (simp add: round_to_double_def u_def[symmetric] abs_mult ju)
qed

lemma double_below_one:
  assumes "round_to_double x = x" and "0 \<le> x" and "x < 1"
  shows "x \<le> 1 - 1 / 2 ^ 53"
proof (cases "x < 1 / 2")
  case True
  then show ?thesis by simp
next
  case False
  then have h: "1 / 2 \<le> x" by simp
  have "expo_down (x * 2) = 0"
    using h by (subst expo_down.simps) simp
  moreover have "expo_down x = expo_down (x * 2) - 1"
    using h assms(3) by (subst expo_down.simps) simp
  ultimately have "expo x = - 1" using assms(3) by (simp add: expo_def)
  then have u: "ulp x = 1 / 2 ^ 53" using assms(2) by (simp add: ulp_def pow2_def)
  define n where "n = round_half_even (x / ulp x)"
  have "round_to_double x = of_int n * ulp x"
    by (simp add: round_to_double_def n_def)
  with assms(1) have x: "x = of_int n / 2 ^ 53"
    by (simp add: u)
  with assms(3) have "(of_int n :: rat) < of_int (2 ^ 53)" by simp
  then have "n < 2 ^ 53" by (simp only: of_int_less_iff)
  then have "n \<le> 2 ^ 53 - 1" by simp
  then have "(of_int n :: rat) \<le> of_int (2 ^ 53 - 1)" by (simp only: of_int_le_iff)
  then have "(of_int n :: rat) / 2 ^ 53 \<le> of_int (2 ^ 53 - 1) / 2 ^ 53"
    by (intro divide_right_mono) simp_all
  then show ?thesis using x by simp
qed

lemma round_to_double_le:
  assumes "0 \<le> a" and "a < 2 ^ 53" and "\<bar>x\<bar> \<le> of_int a"
  shows "\<bar>round_to_double x\<bar> \<le> of_int a"
  using round_to_double_bound[OF assms(1,2), of x 0] assms(3) by simp

lemma round_to_double_of_int:
  assumes "\<bar>k\<bar> < 2 ^ 53"
  shows "round_to_double (of_int k) = of_int k"
proof -
  have "\<bar>(of_int k :: rat)\<bar> < of_int (2 ^ 53)"
    using assms by (simp only: of_int_abs[symmetric] of_int_less_iff)
  then have "\<bar>(of_int k :: rat)\<bar> < 2 ^ (53 + 0)" by simp
  then obtain i where i: "2 ^ 0 / ulp (of_int k) = (2::rat) ^ i" using ulp_divides by blast
  have up: "0 < ulp (of_int k)" by (rule ulp_pos)
  from i up have u: "ulp (of_int k) = 1 / 2 ^ i" by (simp add: field_simps)
  have "(of_int k :: rat) / ulp (of_int k) = of_int (k * 2 ^ i)" by (simp add: u)
  then have "round_half_even (of_int k / ulp (of_int k)) = k * 2 ^ i"
    by (simp only: round_half_even_of_int)
  then show ?thesis by (simp add: round_to_double_def u)
qed

lemma to_double_bounded:
  assumes "0 \<le> m" and "m < 2 ^ 53" and "\<bar>x\<bar> \<le> of_int m * 2 ^ j" and "53 + j \<le> 1024"
  shows "\<exists>y. to_double x = PyFloat y \<and> y = round_to_double x \<and> \<bar>y\<bar> \<le> of_int m * 2 ^ j"
proof -
  from round_to_double_bound[OF assms(1-3)]
  have b: "\<bar>round_to_double x\<bar> \<le> of_int m * 2 ^ j" .
  have "(of_int m :: rat) < of_int (2 ^ 53)" using assms(2) by (simp only: of_int_less_iff)
  then have "(of_int m :: rat) * 2 ^ j < of_int (2 ^ 53) * 2 ^ j"
    by (intro mult_strict_right_mono) simp_all
  also have "\<dots> = 2 ^ (53 + j)" by (simp add: power_add)
  also have "\<dots> \<le> (2::rat) ^ 1024" using assms(4) by (intro power_increasing) simp_all
  finally have "(of_int m :: rat) * 2 ^ j < 2 ^ 1024" .
  with b have "\<bar>round_to_double x\<bar> < 2 ^ 1024" by (rule le_less_trans)
  then have "finite64 (round_to_double x)" by (simp only: finite64_def)
  then show ?thesis using b by (simp add: to_double_def)
qed

lemma to_double_le:
  assumes "0 \<le> a" and "a < 2 ^ 53" and "\<bar>x\<bar> \<le> of_int a"
  shows "\<exists>y. to_double x = PyFloat y \<and> y = round_to_double x \<and> \<bar>y\<bar> \<le> of_int a"
  using to_double_bounded[OF assms(1,2), of x 0] assms(3) by simp

lemma to_double_of_int:
  assumes "\<bar>k\<bar> < 2 ^ 53"
  shows "to_double (of_int k) = PyFloat (of_int k)"
proof -
  have "\<bar>(of_int k :: rat)\<bar> < of_int (2 ^ 53)"
    using assms by (simp only: of_int_abs[symmetric] of_int_less_iff)
  also have "\<dots> \<le> (2::rat) ^ 1024" by simp
  finally have "finite64 (of_int k)" by (simp only: finite64_def)
  then show ?thesis by (simp add: to_double_def round_to_double_of_int[OF assms])
qed

text \<open>
  Rounding is symmetric and never takes a value below a power of two that it exceeds, so
  a result of magnitude \<open>2 ^ 1024\<close> or more overflows.
\<close>

lemma pow2_powi: "pow2 k = 2 powi k"
  by (simp add: pow2_def power_int_def field_simps)

lemma expo_up_upper: "1 \<le> x \<Longrightarrow> x < 2 ^ (nat (expo_up x) + 1)"
proof (induction x rule: expo_up.induct)
  case (1 x)
  show ?case
  proof (cases "2 \<le> x")
    case True
    have e: "expo_up x = expo_up (x / 2) + 1"
      using True by (subst expo_up.simps) simp
    have h: "1 \<le> x / 2" using True by simp
    from 1(1)[OF True h] have ih: "x / 2 < 2 ^ (nat (expo_up (x / 2)) + 1)" .
    from expo_up_bound[OF h] have nn: "0 \<le> expo_up (x / 2)" by simp
    have "nat (expo_up (x / 2) + 1) = Suc (nat (expo_up (x / 2)))"
      using nn by simp
    then show ?thesis using ih e by simp
  next
    case False
    then have "expo_up x = 0"
      by (subst expo_up.simps) simp
    with False show ?thesis by simp
  qed
qed

lemma round_to_double_neg: "round_to_double (- x) = - round_to_double x"
  by (simp add: round_to_double_def ulp_def round_half_even_neg)

lemma round_to_double_nonneg: "0 \<le> x \<Longrightarrow> 0 \<le> round_to_double x"
proof -
  assume x: "0 \<le> x"
  have "of_int 0 \<le> x / ulp x" using x ulp_pos[of x] by simp
  then have "0 \<le> round_half_even (x / ulp x)" by (rule round_half_even_ge)
  then show ?thesis using ulp_pos[of x] by (simp add: round_to_double_def)
qed

lemma round_to_double_abs: "\<bar>round_to_double x\<bar> = round_to_double \<bar>x\<bar>"
proof (cases "0 \<le> x")
  case True
  with round_to_double_nonneg[OF True] show ?thesis by simp
next
  case False
  then have n: "0 \<le> - x" by simp
  from round_to_double_nonneg[OF n] False show ?thesis by (simp add: round_to_double_neg)
qed

lemma round_to_double_ge_power:
  assumes "2 ^ n \<le> \<bar>x\<bar>"
  shows "2 ^ n \<le> \<bar>round_to_double x\<bar>"
proof -
  define y where "y = \<bar>x\<bar>"
  have y1: "1 \<le> y" 
  proof -
    have "(1::rat) \<le> 2 ^ n" by simp
    with assms show ?thesis unfolding y_def by linarith
  qed
  define e where "e = nat (expo_up y)"
  from expo_up_bound[OF y1] have e0: "0 \<le> expo_up y" and lo: "2 ^ e \<le> y"
    by (simp_all add: e_def)
  from expo_up_upper[OF y1] have hi: "y < 2 ^ (e + 1)" by (simp add: e_def)
  from assms hi have "(2::rat) ^ n < 2 ^ (e + 1)" unfolding y_def by linarith
  then have "n < e + 1" using power_less_imp_less_exp[of "2::rat" n "e + 1"] by simp
  then have ne: "n \<le> e" by simp
  have ex: "expo \<bar>y\<bar> = int e" using y1 e0 by (simp add: expo_def e_def)
  define c :: int where "c = 2 ^ 52"
  have u: "ulp y = 2 powi (int e - 52)"
    by (simp add: ulp_def ex pow2_powi)
  have up: "0 < ulp y" by (rule ulp_pos)
  have "(2::rat) powi (int e - 52) * 2 powi 52 = 2 powi (int e - 52 + 52)"
    by (subst power_int_add) simp_all
  also have "\<dots> = 2 powi (int e)" by simp
  also have "\<dots> = 2 ^ e" by (rule power_int_of_nat)
  finally have "ulp y * 2 powi 52 = 2 ^ e" by (simp only: u)
  moreover have "(2::rat) powi 52 = of_int c" by (simp add: c_def)
  ultimately have m: "of_int c * ulp y = 2 ^ e" by (simp only: mult.commute)
  have "of_int c * ulp y \<le> y" using lo by (simp only: m)
  then have "of_int c \<le> y / ulp y" using up by (simp add: pos_le_divide_eq)
  then have "c \<le> round_half_even (y / ulp y)" by (rule round_half_even_ge)
  then have "(of_int c :: rat) \<le> of_int (round_half_even (y / ulp y))"
    by (simp only: of_int_le_iff)
  then have "of_int c * ulp y \<le> of_int (round_half_even (y / ulp y)) * ulp y"
    using up by (intro mult_right_mono) simp_all
  then have "2 ^ e \<le> round_to_double y" by (simp only: m round_to_double_def)
  moreover have "(2::rat) ^ n \<le> 2 ^ e" using ne by (intro power_increasing) simp_all
  ultimately have "2 ^ n \<le> round_to_double y" by linarith
  then show ?thesis by (simp add: round_to_double_abs y_def)
qed

lemma to_double_overflow: "2 ^ 1024 \<le> \<bar>x\<bar> \<Longrightarrow> to_double x = PyNonFinite"
  using round_to_double_ge_power[of 1024 x] by (simp add: to_double_def finite64_def)

section \<open>Amplitudes and casts\<close>

lemma int_max_bounds: "itemsize dt \<le> 6 \<Longrightarrow> 0 \<le> int_max dt \<and> int_max dt < 2 ^ 53"
proof -
  assume "itemsize dt \<le> 6"
  then have "itemsize dt * 8 - 1 \<le> 47" by simp
  then have "(2::int) ^ (itemsize dt * 8 - 1) \<le> 2 ^ 47"
    by (rule power_increasing) simp
  moreover have "(1::int) \<le> 2 ^ (itemsize dt * 8 - 1)" by simp
  ultimately show ?thesis by (simp add: int_max_def)
qed

lemma int_min_max: "int_min dt = - int_max dt - 1"
  by (simp add: int_min_def int_max_def)

lemma wrap_id:
  assumes "0 < itemsize dt" and "int_min dt \<le> a" and "a \<le> int_max dt"
  shows "wrap dt a = a"
proof -
  define h :: int where "h = 2 ^ (itemsize dt * 8 - 1)"
  have "itemsize dt * 8 = Suc (itemsize dt * 8 - 1)" using assms(1) by simp
  then have "(2::int) ^ (itemsize dt * 8) = 2 ^ Suc (itemsize dt * 8 - 1)" by simp
  then have p: "(2::int) ^ (itemsize dt * 8) = 2 * h" by (simp add: h_def)
  have lo: "0 \<le> a + h" using assms(2) by (simp add: int_min_def h_def)
  have hi: "a + h < 2 * h" using assms(3) by (simp add: int_max_def h_def)
  have m: "int_min dt = - h" by (simp add: int_min_def h_def)
  have "(a + h) mod (2 * h) = a + h" using lo hi by simp
  then show ?thesis unfolding wrap_def m p by simp
qed

lemma wrap_range:
  assumes "0 < itemsize dt"
  shows "int_min dt \<le> wrap dt a \<and> wrap dt a \<le> int_max dt"
proof -
  define h :: int where "h = 2 ^ (itemsize dt * 8 - 1)"
  have "itemsize dt * 8 = Suc (itemsize dt * 8 - 1)" using assms by simp
  then have "(2::int) ^ (itemsize dt * 8) = 2 ^ Suc (itemsize dt * 8 - 1)" by simp
  then have p: "(2::int) ^ (itemsize dt * 8) = 2 * h" by (simp add: h_def)
  have hp: "0 < h" by (simp add: h_def)
  have m: "int_min dt = - h" by (simp add: int_min_def h_def)
  have x: "int_max dt = h - 1" by (simp add: int_max_def h_def)
  have "0 \<le> (a + h) mod (2 * h)" "(a + h) mod (2 * h) < 2 * h" using hp by simp_all
  then show ?thesis unfolding wrap_def m x p by simp
qed

lemma trunc_of_int: "trunc (of_int k) = k"
  by (simp add: trunc_def)

lemma py_val_neg: "is_finite p \<Longrightarrow> py_val (py_neg p) = - py_val p"
  by (cases p) simp_all

lemma is_finite_neg: "is_finite (py_neg p) = is_finite p"
  by (cases p) simp_all

lemma cast_item_range:
  assumes "0 < itemsize dt"
  shows "int_min dt \<le> cast_item c_cast dt p \<and> cast_item c_cast dt p \<le> int_max dt"
  using wrap_range[OF assms] by (cases p) simp_all

lemma cast_round_in_range:
  assumes "0 < itemsize dt" and "is_finite p" and "\<bar>py_val p\<bar> \<le> of_int (int_max dt)"
  shows "castable dt (np_round p) \<and> \<bar>cast_item c_cast dt (np_round p)\<bar> \<le> int_max dt
    \<and> is_finite (np_round p)
    \<and> of_int (cast_item c_cast dt (np_round p)) = py_val (np_round p)"
proof (cases p)
  case (PyInt k)
  with assms(3) have "\<bar>k\<bar> \<le> int_max dt"
    by (simp only: py_val.simps of_int_abs[symmetric] of_int_le_iff)
  then have "int_min dt \<le> k" "k \<le> int_max dt" by (simp_all add: int_min_max)
  then have "wrap dt k = k" using assms(1) by (simp add: wrap_id)
  with PyInt \<open>\<bar>k\<bar> \<le> int_max dt\<close> show ?thesis by simp
next
  case (PyFloat y)
  from assms(3) PyFloat have "y \<le> of_int (int_max dt)" "of_int (- int_max dt) \<le> y"
    by simp_all
  then have "round_half_even y \<le> int_max dt" "- int_max dt \<le> round_half_even y"
    by (simp_all only: round_half_even_le round_half_even_ge)
  with PyFloat show ?thesis by (simp add: trunc_of_int int_min_max)
next
  case PyNonFinite
  with assms(2) show ?thesis by simp
qed

lemma py_between_unit:
  assumes "py_between 0 v 1"
  shows "is_finite v \<and> 0 \<le> py_val v \<and> py_val v \<le> 1"
  using assms by (cases v) simp_all

lemma py_between_int:
  assumes "py_between 0 (PyInt b) 1"
  shows "b = 0 \<or> b = 1"
  using assms by simp linarith

text \<open>
  Up to six bytes the largest sample value is a double, so the amplitude stays below it
  at every volume.
\<close>

lemma amplitude_bound:
  assumes "py_between 0 v 1" and "itemsize dt \<le> 6"
  shows "is_finite (amplitude dt v) \<and> \<bar>py_val (amplitude dt v)\<bar> \<le> of_int (int_max dt)
       \<and> py_float (amplitude dt v)
           = PyFloat (round_to_double (of_int (int_max dt) * py_val v))
       \<and> \<bar>round_to_double (of_int (int_max dt) * py_val v)\<bar> \<le> of_int (int_max dt)
       \<and> (amplitude_raises dt v = False)"
proof -
  from int_max_bounds[OF assms(2)] have a0: "0 \<le> int_max dt" and a53: "int_max dt < 2 ^ 53"
    by simp_all
  then have a53': "\<bar>int_max dt\<bar> < 2 ^ 53" by simp
  note ci = to_double_of_int[OF a53']
  have ri: "round_to_double (of_int (int_max dt)) = of_int (int_max dt)"
    by (rule round_to_double_of_int[OF a53'])
  have nr: "\<not> 2 ^ 1024 \<le> \<bar>round_to_double (rat_of_int (int_max dt))\<bar>"
  proof -
    have "\<bar>rat_of_int (int_max dt)\<bar> < of_int (2 ^ 53)"
      using a53' by (simp only: of_int_abs[symmetric] of_int_less_iff)
    also have "\<dots> \<le> (2::rat) ^ 1024" by simp
    finally show ?thesis by (simp add: ri)
  qed
  show ?thesis
  proof (cases v)
    case (PyInt b)
    with assms(1) have b: "b = 0 \<or> b = 1" by (simp only: py_between_int)
    then have le: "\<bar>(of_int (int_max dt * b) :: rat)\<bar> \<le> of_int (int_max dt)"
      using a0 by auto
    from b a53' have "\<bar>int_max dt * b\<bar> < 2 ^ 53" by auto
    from to_double_of_int[OF this] round_to_double_of_int[OF this]
    have "to_double (of_int (int_max dt * b)) = PyFloat (round_to_double (of_int (int_max dt * b)))"
      by simp
    moreover have "\<bar>round_to_double (of_int (int_max dt * b))\<bar> \<le> of_int (int_max dt)"
      by (rule round_to_double_le[OF a0 a53 le])
    ultimately show ?thesis using PyInt le
      by (simp add: amplitude_def amplitude_raises_def int_max_def)
  next
    case (PyFloat x)
    from assms(1) PyFloat have "\<bar>x\<bar> \<le> 1" by simp
    then have "\<bar>of_int (int_max dt)\<bar> * \<bar>x\<bar> \<le> of_int (int_max dt) * (1::rat)"
      using a0 by (intro mult_mono) simp_all
    then have le: "\<bar>of_int (int_max dt) * x\<bar> \<le> (of_int (int_max dt) :: rat)"
      by (simp add: abs_mult)
    from to_double_le[OF a0 a53 le] obtain y where
      y: "to_double (of_int (int_max dt) * x) = PyFloat y"
        "y = round_to_double (of_int (int_max dt) * x)" "\<bar>y\<bar> \<le> of_int (int_max dt)"
      by blast
    have "amplitude dt v = float_mul (to_double (of_int (int_max dt))) (PyFloat x)"
      by (simp add: amplitude_def int_max_def PyFloat)
    then have amp: "amplitude dt v = PyFloat y" by (simp add: ci y(1))
    have "amplitude_raises dt v = False"
      using nr by (simp add: amplitude_raises_def PyFloat int_max_def)
    then show ?thesis using amp y(2,3) PyFloat by simp
  next
    case PyNonFinite
    with assms(1) show ?thesis by simp
  qed
qed

lemma square_item_cases: "square_item q amp x = amp \<or> square_item q amp x = py_neg amp"
  by (simp add: square_item_def)

lemma square_item_bound:
  assumes "is_finite amp" and "\<bar>py_val amp\<bar> \<le> b"
  shows "is_finite (square_item q amp x) \<and> \<bar>py_val (square_item q amp x)\<bar> \<le> b"
  using square_item_cases[of q amp x] assms by (auto simp: py_val_neg is_finite_neg)

text \<open>
  Beyond six bytes \<open>2 ^ (8 * W - 1) - 1\<close> is rounded up to \<open>2 ^ (8 * W - 1)\<close>; the
  product with a float volume below 1.0 stays below the largest sample value all the
  same, since such a volume is at most \<open>1 - 2 ^ - 53\<close>.
\<close>

lemma amplitude_bound_wide:
  assumes "7 \<le> itemsize dt" and "itemsize dt \<le> 8"
    and "round_to_double x = x" and "0 \<le> x" and "x < 1"
  shows "\<exists>y. amplitude dt (PyFloat x) = PyFloat y
           \<and> \<bar>y\<bar> \<le> of_int (2 ^ 53 - 1) * 2 ^ (itemsize dt * 8 - 54)
           \<and> (of_int (2 ^ 53 - 1) * 2 ^ (itemsize dt * 8 - 54) :: rat) \<le> of_int (int_max dt)
           \<and> amplitude_raises dt (PyFloat x) = False"
proof -
  define j where "j = itemsize dt * 8 - 54"
  have k: "itemsize dt * 8 - 1 = 53 + j" using assms(1) by (simp add: j_def)
  have j10: "j \<le> 10" using assms(2) by (simp add: j_def)
  define a :: int where "a = 2 ^ (53 + j) - 1"
  have "\<bar>(of_int a :: rat)\<bar> \<le> of_int 1 * 2 ^ (53 + j)" by (simp add: a_def)
  from to_double_bounded[OF _ _ this] j10 obtain r where
    r: "to_double (of_int a) = PyFloat r" "r = round_to_double (of_int a)"
       "\<bar>r\<bar> \<le> of_int 1 * 2 ^ (53 + j)"
    by auto
  have "(2::rat) ^ (53 + j) \<le> 2 ^ 63" using j10 by (intro power_increasing) simp_all
  also have "\<dots> < (2::rat) ^ 1024" by simp
  finally have "\<bar>r\<bar> < 2 ^ 1024" using r(3) by simp
  then have nr: "amplitude_raises dt (PyFloat x) = False"
    unfolding amplitude_raises_def k a_def[symmetric] by (simp add: r(2))
  have x: "\<bar>x\<bar> \<le> 1 - 1 / 2 ^ 53"
    using double_below_one[OF assms(3-5)] assms(4) by simp
  have "\<bar>r\<bar> * \<bar>x\<bar> \<le> (of_int 1 * 2 ^ (53 + j)) * (1 - 1 / 2 ^ 53)"
    using r(3) x by (intro mult_mono) simp_all
  also have "\<dots> = of_int (2 ^ 53 - 1) * 2 ^ j" by (simp add: power_add field_simps)
  finally have "\<bar>r * x\<bar> \<le> of_int (2 ^ 53 - 1) * 2 ^ j"
    by (simp add: abs_mult)
  from to_double_bounded[OF _ _ this] j10 obtain y where
    y: "to_double (r * x) = PyFloat y" "\<bar>y\<bar> \<le> of_int (2 ^ 53 - 1) * 2 ^ j"
    by auto
  have "amplitude dt (PyFloat x) = float_mul (to_double (of_int a)) (PyFloat x)"
    unfolding amplitude_def k a_def by simp
  then have amp: "amplitude dt (PyFloat x) = PyFloat y" by (simp add: r(1) y(1))
  have "(1::int) \<le> 2 ^ j" by simp
  then have "(2 ^ 53 - 1) * 2 ^ j \<le> (2 ^ (53 + j) - 1 :: int)"
    by (simp add: power_add algebra_simps)
  then have "(of_int ((2 ^ 53 - 1) * 2 ^ j) :: rat) \<le> of_int (2 ^ (53 + j) - 1)"
    by (simp only: of_int_le_iff)
  then have "(of_int (2 ^ 53 - 1) * 2 ^ j :: rat) \<le> of_int (int_max dt)"
    unfolding int_max_def k by simp
  with amp y(2) nr show ?thesis unfolding j_def by blast
qed

lemma amplitude_int_volume:
  assumes "py_between 0 (PyInt b) 1"
  shows "is_finite (amplitude dt (PyInt b))
       \<and> \<bar>py_val (amplitude dt (PyInt b))\<bar> \<le> of_int (int_max dt)
       \<and> amplitude_raises dt (PyInt b) = False"
proof -
  from assms have "b = 0 \<or> b = 1" by (rule py_between_int)
  moreover have "0 \<le> int_max dt" by (simp add: int_max_def)
  ultimately show ?thesis
    by (auto simp: amplitude_def amplitude_raises_def int_max_def)
qed

lemma amplitude_square:
  assumes "py_between 0 v 1" and "itemsize dt \<le> 8"
    and "itemsize dt \<le> 6 \<or> (\<exists>b. v = PyInt b)
           \<or> (\<exists>x. v = PyFloat x \<and> round_to_double x = x \<and> x < 1)"
  shows "is_finite (amplitude dt v) \<and> \<bar>py_val (amplitude dt v)\<bar> \<le> of_int (int_max dt)"
proof (cases "itemsize dt \<le> 6")
  case True
  from amplitude_bound[OF assms(1) True] show ?thesis by simp
next
  case False
  show ?thesis
  proof (cases v)
    case (PyInt b)
    from amplitude_int_volume[of b dt] assms(1) PyInt show ?thesis by simp
  next
    case (PyFloat x)
    with assms(3) False have x: "round_to_double x = x" "x < 1" by simp_all
    have x0: "0 \<le> x" using assms(1) PyFloat by simp
    from False have w: "7 \<le> itemsize dt" by simp
    from amplitude_bound_wide[OF w assms(2) x(1) x0 x(2)] PyFloat
    show ?thesis by auto
  next
    case PyNonFinite
    with assms(1) show ?thesis by simp
  qed
qed

lemma amplitude_harmonic:
  assumes "py_between 0 v 1" and "itemsize dt \<le> 8"
    and "itemsize dt \<le> 6 \<or> v = PyInt 0
           \<or> (\<exists>x. v = PyFloat x \<and> round_to_double x = x \<and> x < 1)"
  shows "\<exists>m j y. 0 \<le> m \<and> m < 2 ^ 53 \<and> 53 + j \<le> 1024
           \<and> (of_int m * 2 ^ j :: rat) \<le> of_int (int_max dt)
           \<and> py_float (amplitude dt v) = PyFloat y \<and> \<bar>y\<bar> \<le> of_int m * 2 ^ j"
proof -
  consider (narrow) "itemsize dt \<le> 6" | (zero) "v = PyInt 0"
    | (wide) x where "7 \<le> itemsize dt" "v = PyFloat x" "round_to_double x = x" "x < 1"
    using assms(3) by fastforce
  then show ?thesis
  proof cases
    case narrow
    from int_max_bounds[OF narrow] amplitude_bound[OF assms(1) narrow]
    have "0 \<le> int_max dt \<and> int_max dt < 2 ^ 53 \<and> 53 + (0::nat) \<le> 1024
        \<and> (of_int (int_max dt) * 2 ^ 0 :: rat) \<le> of_int (int_max dt)
        \<and> py_float (amplitude dt v) = PyFloat (round_to_double (of_int (int_max dt) * py_val v))
        \<and> \<bar>round_to_double (of_int (int_max dt) * py_val v)\<bar> \<le> of_int (int_max dt) * 2 ^ 0"
      by simp
    then show ?thesis by blast
  next
    case zero
    have "to_double (of_int 0) = PyFloat (of_int 0)" by (rule to_double_of_int) simp
    then have "py_float (amplitude dt v) = PyFloat 0" by (simp add: zero amplitude_def)
    moreover have "(0::int) \<le> int_max dt" by (simp add: int_max_def)
    ultimately have "(0::int) \<le> 0 \<and> (0::int) < 2 ^ 53 \<and> 53 + (0::nat) \<le> 1024
        \<and> (of_int 0 * 2 ^ 0 :: rat) \<le> of_int (int_max dt)
        \<and> py_float (amplitude dt v) = PyFloat 0 \<and> \<bar>0 :: rat\<bar> \<le> of_int 0 * 2 ^ 0"
      by simp
    then show ?thesis by blast
  next
    case wide
    have x0: "0 \<le> x" using assms(1) wide(2) by simp
    from amplitude_bound_wide[OF wide(1) assms(2) wide(3) x0 wide(4)] obtain y where
      y: "amplitude dt (PyFloat x) = PyFloat y"
         "\<bar>y\<bar> \<le> of_int (2 ^ 53 - 1) * 2 ^ (itemsize dt * 8 - 54)"
         "(of_int (2 ^ 53 - 1) * 2 ^ (itemsize dt * 8 - 54) :: rat) \<le> of_int (int_max dt)"
      by blast
    have "53 + (itemsize dt * 8 - 54) \<le> 1024" using assms(2) by simp
    with y have "(0::int) \<le> 2 ^ 53 - 1 \<and> (2 ^ 53 - 1 :: int) < 2 ^ 53
        \<and> 53 + (itemsize dt * 8 - 54) \<le> 1024
        \<and> (of_int (2 ^ 53 - 1) * 2 ^ (itemsize dt * 8 - 54) :: rat) \<le> of_int (int_max dt)
        \<and> py_float (amplitude dt v) = PyFloat y
        \<and> \<bar>y\<bar> \<le> of_int (2 ^ 53 - 1) * 2 ^ (itemsize dt * 8 - 54)"
      by (simp add: wide(2))
    then show ?thesis by blast
  qed
qed

text \<open>An element handed to the sine is a float, finite or not.\<close>

lemma to_double_cases: "to_double x = PyFloat (round_to_double x) \<or> to_double x = PyNonFinite"
  by (simp add: to_double_def)

lemma harmonic_phase_item_float:
  assumes "is_finite (harmonic_phase_item w fr x)"
  shows "\<exists>y. harmonic_phase_item w fr x = PyFloat y"
proof -
  have "float_div a b = PyNonFinite \<or> (\<exists>y. float_div a b = PyFloat y)" for a b
    using to_double_cases by (cases a; cases b) auto
  from this[of "float_mul w (py_float x)" "py_float (PyInt fr)"] assms
  show ?thesis by (auto simp: harmonic_phase_item_def)
qed

lemma harmonic_value_bound:
  assumes "\<forall>x. \<bar>np_sin x\<bar> \<le> 1" and "0 \<le> m" and "m < 2 ^ 53" and "53 + j \<le> 1024"
    and "py_float amp = PyFloat y" and "\<bar>y\<bar> \<le> of_int m * 2 ^ j"
  shows "harmonic_value np_sin amp (PyFloat x) = PyFloat (round_to_double (y * np_sin x))
       \<and> \<bar>round_to_double (y * np_sin x)\<bar> \<le> of_int m * 2 ^ j"
proof -
  have "\<bar>np_sin x\<bar> \<le> 1" using assms(1) by simp
  with assms(6) have "\<bar>y\<bar> * \<bar>np_sin x\<bar> \<le> (of_int m * 2 ^ j) * 1"
    by (intro mult_mono) (simp_all add: assms(2))
  then have "\<bar>y * np_sin x\<bar> \<le> of_int m * 2 ^ j" by (simp add: abs_mult)
  from to_double_bounded[OF assms(2,3) this assms(4)]
  show ?thesis by (auto simp: harmonic_value_def np_sin_of_def assms(5))
qed

section \<open>What a successful construction returns\<close>

lemma index_array_Inr:
  assumes "index_array d fr = Inr xs"
  shows "xs = np_arange (py_mul d (PyInt fr)) \<and> mul_raises d (PyInt fr) = False
       \<and> arange_raises (py_mul d (PyInt fr)) = False"
  using assms by (auto simp: index_array_def split: if_splits)

lemma SquareWave_rounded_Inr:
  assumes "SquareWave_rounded f dt fr d v = Inr ys"
  shows "py_between 0 v 1 \<and> amplitude_raises dt v = False \<and>
    (\<exists>k. f = PyInt k \<and> k \<noteq> 0 \<and> index_array d fr = Inr (np_arange (py_mul d (PyInt fr))) \<and>
      ys = map (\<lambda>x. np_round (square_item (Fract 1 k * of_int fr / 2) (amplitude dt v) x))
             (np_arange (py_mul d (PyInt fr))))"
proof -
  from assms have v: "py_between 0 v 1" and r: "amplitude_raises dt v = False"
    by (auto simp: SquareWave_rounded_def split: if_splits)
  from assms v r obtain xs where xs: "index_array d fr = Inr xs"
    by (auto simp: SquareWave_rounded_def split: sum.splits)
  from index_array_Inr[OF xs] have x: "xs = np_arange (py_mul d (PyInt fr))" by simp
  from assms v r xs show ?thesis unfolding x
    by (auto simp: SquareWave_rounded_def Let_def split: pynum.splits if_splits)
qed

lemma SquareWave_samples_Inr:
  assumes "SquareWave_samples c_cast f dt fr d v = Inr a"
  shows "\<exists>ys. SquareWave_rounded f dt fr d v = Inr ys \<and> a = astype c_cast ys dt"
  using assms by (auto simp: SquareWave_samples_def split: sum.splits)

lemma harmonic_phase_Inr:
  assumes "harmonic_phase f fr d = Inr ts"
  shows "index_array d fr = Inr (np_arange (py_mul d (PyInt fr)))
       \<and> mul_raises (PyFloat tau) f = False
       \<and> ts = map (harmonic_phase_item (py_mul (PyFloat tau) f) fr)
                (np_arange (py_mul d (PyInt fr)))"
proof -
  from assms obtain xs where xs: "index_array d fr = Inr xs"
    by (auto simp: harmonic_phase_def split: sum.splits)
  from index_array_Inr[OF xs] have x: "xs = np_arange (py_mul d (PyInt fr))" by simp
  from assms xs show ?thesis unfolding x
    by (auto simp: harmonic_phase_def split: if_splits)
qed

lemma SimpleHarmonicWave_rounded_Inr:
  assumes "SimpleHarmonicWave_rounded np_sin f dt fr d v = Inr ys"
  shows "py_between 0 v 1 \<and> amplitude_raises dt v = False \<and>
    (\<exists>ts. harmonic_phase f fr d = Inr ts
       \<and> ys = map (\<lambda>t. np_round (harmonic_value np_sin (amplitude dt v) t)) ts)"
  using assms
  by (auto simp: SimpleHarmonicWave_rounded_def split: if_splits sum.splits)

lemma SimpleHarmonicWave_samples_Inr:
  assumes "SimpleHarmonicWave_samples np_sin c_cast f dt fr d v = Inr a"
  shows "\<exists>ys. SimpleHarmonicWave_rounded np_sin f dt fr d v = Inr ys \<and> a = astype c_cast ys dt"
  using assms by (auto simp: SimpleHarmonicWave_samples_def split: sum.splits)

lemma np_arange_size_val: "is_finite p \<Longrightarrow> np_arange_size p = nat \<lceil>py_val p\<rceil>"
  by (cases p) (simp_all add: np_arange_size_def)

lemma length_np_arange: "length (np_arange p) = np_arange_size p"
  by (simp add: np_arange_def)

lemma np_arange_nth:
  "n < np_arange_size p \<Longrightarrow> np_arange p ! n = np_arange_item p n"
  by (simp add: np_arange_def)

lemma arange_finite: "arange_raises p = False \<Longrightarrow> is_finite p"
  by (cases p) (simp_all add: arange_raises_def)

lemma length_byteswap: "length (data (byteswap a)) = length (data a)"
  by (simp add: byteswap_def)

lemma MonoWave_init_Inr:
  assumes "MonoWave_init a fr = Inr w"
  shows "kind (dtype a) = CHR ''i'' \<and> ndim a = 1 \<and> fr \<noteq> 0 \<and>
    w = \<lparr>samples = (if byteorder (dtype a) = CHR ''='' then a else byteswap a),
         framerate = fr, step = Fract 1 fr,
         duration = of_nat (length (data a)) * Fract 1 fr\<rparr>"
  using assms
  by (auto simp: MonoWave_init_def Let_def length_byteswap split: if_splits)

lemma astype_range:
  assumes "0 < itemsize dt"
  shows "\<forall>x\<in>set (data (astype c_cast xs dt)). int_min dt \<le> x \<and> x \<le> int_max dt"
  using cast_item_range[OF assms] by (auto simp: astype_def)

lemma byteswap_int_1:
  assumes "- 128 \<le> v" and "v \<le> 127"
  shows "byteswap_int 1 v = v"
proof (cases "0 \<le> v")
  case True
  then have "v mod 256 = v" using assms by simp
  then show ?thesis using assms True
    by (simp add: byteswap_int_def le_bytes_def from_le_bytes_def to_signed_def)
next
  case False
  then have "v mod 256 = v + 256" using assms
  proof -
    have "v mod 256 = (v + 256) mod 256" by simp
    also have "\<dots> = v + 256" using assms False by (intro mod_pos_pos_trivial) simp_all
    finally show ?thesis .
  qed
  then show ?thesis using assms False
    by (simp add: byteswap_int_def le_bytes_def from_le_bytes_def to_signed_def)
qed

lemma byteswap_1_id:
  assumes "itemsize (dtype a) = 1"
    and "\<forall>x\<in>set (data a). int_min (dtype a) \<le> x \<and> x \<le> int_max (dtype a)"
  shows "byteswap a = a"
proof -
  have "byteswap_int 1 x = x" if "x \<in> set (data a)" for x
  proof -
    from that assms have "- 128 \<le> x" "x \<le> 127" by (auto simp: int_min_def int_max_def)
    then show ?thesis by (rule byteswap_int_1)
  qed
  then have "\<forall>x\<in>set (data a). byteswap_int 1 x = x" by blast
  then have "map (byteswap_int 1) (data a) = data a" by (simp add: map_idI)
  then show ?thesis by (simp add: byteswap_def assms(1))
qed

lemma MonoWave_init_keeps:
  assumes "MonoWave_init a fr = Inr w"
    and "byteorder (dtype a) = CHR ''='' \<or> itemsize (dtype a) = 1"
    and "\<forall>x\<in>set (data a). int_min (dtype a) \<le> x \<and> x \<le> int_max (dtype a)"
  shows "samples w = a"
  using MonoWave_init_Inr[OF assms(1)] assms(2,3) byteswap_1_id[of a] by auto

section \<open>Evaluation on numerals\<close>

text \<open>
  The rounding functions are unfolded on closed numerals only, so that a concrete call is
  computed inside out and nothing is unfolded under a binder.
\<close>

lemma floor_rat_numeral [simp]: "\<lfloor>numeral a / numeral b :: rat\<rfloor> = numeral a div numeral b"
  by (metis floor_divide_of_int_eq of_int_numeral)

lemma floor_rat_neg_numeral [simp]: "\<lfloor>- (numeral a / numeral b) :: rat\<rfloor> = - numeral a div numeral b"
  by (metis divide_minus_left floor_divide_of_int_eq of_int_neg_numeral of_int_numeral)

lemma ceiling_rat_numeral [simp]: "\<lceil>numeral a / numeral b :: rat\<rceil> = - (- numeral a div numeral b)"
  using ceiling_divide_eq_div[of "numeral a" "numeral b"] by simp

lemma ceiling_rat_neg_numeral [simp]: "\<lceil>- (numeral a / numeral b) :: rat\<rceil> = - (numeral a div numeral b)"
  using ceiling_divide_eq_div[of "- numeral a" "numeral b"] by simp

lemma floor_rat_one_numeral [simp]: "\<lfloor>1 / numeral b :: rat\<rfloor> = 1 div numeral b"
  using floor_divide_of_int_eq[of 1 "numeral b", where ?'a = rat] by simp

lemma floor_rat_neg_one_numeral [simp]: "\<lfloor>- (1 / numeral b) :: rat\<rfloor> = - 1 div numeral b"
  using floor_divide_of_int_eq[of "- 1" "numeral b", where ?'a = rat] by simp

lemma ceiling_rat_one_numeral [simp]: "\<lceil>1 / numeral b :: rat\<rceil> = - (- 1 div numeral b)"
  using ceiling_divide_eq_div[of 1 "numeral b"] by simp

lemma ceiling_rat_neg_one_numeral [simp]: "\<lceil>- (1 / numeral b) :: rat\<rceil> = - (1 div numeral b)"
  using ceiling_divide_eq_div[of "- 1" "numeral b"] by simp

lemma round_half_even_unfold:
  "round_half_even x =
     (if x - of_int \<lfloor>x\<rfloor> < 1 / 2 then \<lfloor>x\<rfloor>
      else if 1 / 2 < x - of_int \<lfloor>x\<rfloor> then \<lfloor>x\<rfloor> + 1
      else if even \<lfloor>x\<rfloor> then \<lfloor>x\<rfloor> else \<lfloor>x\<rfloor> + 1)"
  by (simp add: round_half_even_def Let_def)

lemma round_to_double_unfold:
  "round_to_double x =
     of_int (round_half_even (x / pow2 (max (expo \<bar>x\<bar>) (- 1022) - 52)))
       * pow2 (max (expo \<bar>x\<bar>) (- 1022) - 52)"
  by (simp add: round_to_double_def ulp_def)

lemmas ground_eval =
  round_to_double_unfold[of 0] round_to_double_unfold[of 1]
  round_to_double_unfold[of "numeral a"] round_to_double_unfold[of "- numeral a"]
  round_to_double_unfold[of "numeral a / numeral b"]
  round_to_double_unfold[of "- (numeral a / numeral b)"]
  round_to_double_unfold[of "1 / numeral b"] round_to_double_unfold[of "- (1 / numeral b)"]
  round_half_even_unfold[of 0] round_half_even_unfold[of 1]
  round_half_even_unfold[of "numeral a"] round_half_even_unfold[of "- numeral a"]
  round_half_even_unfold[of "numeral a / numeral b"]
  round_half_even_unfold[of "- (numeral a / numeral b)"]
  round_half_even_unfold[of "1 / numeral b"] round_half_even_unfold[of "- (1 / numeral b)"]
  expo_def[of 0] expo_def[of 1] expo_def[of "numeral a"] expo_def[of "numeral a / numeral b"] expo_def[of "1 / numeral b"]
  expo_up.simps[of 1] expo_up.simps[of "numeral a"] expo_up.simps[of "numeral a / numeral b"]
  expo_down.simps[of 0] expo_down.simps[of 1] expo_down.simps[of "numeral a"]
  expo_down.simps[of "numeral a / numeral b"] expo_down.simps[of "1 / numeral b"]
  pow2_def[of 0] pow2_def[of "numeral c"] pow2_def[of "- numeral c"]
  for a b c


lemmas model_eval = ground_eval finite64_def to_double_def trunc_def fmod_def
  float_floordiv_def float_mod_def Let_def
  np_arange_size_def np_arange_def arange_raises_def int_min_def int_max_def wrap_def
  astype_def integer_indefinite_def
  le_bytes_def from_le_bytes_def to_signed_def byteswap_int_def byteswap_def
  MonoWave_init_def amplitude_def amplitude_raises_def index_array_def tau_def
  np_sin_of_def harmonic_phase_item_def harmonic_value_def harmonic_phase_def
  SimpleHarmonicWave_rounded_def SimpleHarmonicWave_samples_def SimpleHarmonicWave_init_def
  square_item_def SquareWave_rounded_def SquareWave_samples_def SquareWave_init_def
  int8_def int16_def int64_def uint8_def float32_def int16_swapped_def
  Fract_of_int_quotient upt_conv_Cons

section \<open>The buffers of the two generators\<close>

lemma square_castable:
  assumes "0 < itemsize dt" and "is_finite amp" and "\<bar>py_val amp\<bar> \<le> of_int (int_max dt)"
  shows "list_all (castable dt) (map (\<lambda>x. np_round (square_item q amp x)) xs)
       \<and> (\<forall>y\<in>set (map (cast_item c_cast dt) (map (\<lambda>x. np_round (square_item q amp x)) xs)).
           \<bar>y\<bar> \<le> int_max dt)"
proof -
  have b: "is_finite (square_item q amp x)
         \<and> \<bar>py_val (square_item q amp x)\<bar> \<le> of_int (int_max dt)" for x
    by (rule square_item_bound) (rule assms(2), rule assms(3))
  have "castable dt (np_round (square_item q amp x))
      \<and> \<bar>cast_item c_cast dt (np_round (square_item q amp x))\<bar> \<le> int_max dt" for x
    using cast_round_in_range[OF assms(1), of "square_item q amp x" c_cast] b[of x] by simp
  then show ?thesis by (auto simp: list_all_iff)
qed

lemma harmonic_castable:
  assumes "0 < itemsize dt" and "\<forall>x. \<bar>np_sin x\<bar> \<le> 1" and "0 \<le> m" and "m < 2 ^ 53"
    and "53 + j \<le> 1024" and "(of_int m * 2 ^ j :: rat) \<le> of_int (int_max dt)"
    and "py_float amp = PyFloat y" and "\<bar>y\<bar> \<le> of_int m * 2 ^ j"
    and "\<forall>t\<in>set ts. \<exists>x. t = PyFloat x"
  shows "list_all (castable dt) (map (\<lambda>t. np_round (harmonic_value np_sin amp t)) ts)
       \<and> (\<forall>y\<in>set (map (cast_item c_cast dt) (map (\<lambda>t. np_round (harmonic_value np_sin amp t)) ts)).
           \<bar>y\<bar> \<le> int_max dt)"
proof -
  have "castable dt (np_round (harmonic_value np_sin amp t))
      \<and> \<bar>cast_item c_cast dt (np_round (harmonic_value np_sin amp t))\<bar> \<le> int_max dt"
    if t: "t \<in> set ts" for t
  proof -
    from assms(9) t obtain x where x: "t = PyFloat x" by blast
    from harmonic_value_bound[OF assms(2-5,7,8), of x]
    have v: "harmonic_value np_sin amp t = PyFloat (round_to_double (y * np_sin x))"
      and b0: "\<bar>round_to_double (y * np_sin x)\<bar> \<le> of_int m * 2 ^ j"
      unfolding x by simp_all
    from b0 assms(6) have b: "\<bar>round_to_double (y * np_sin x)\<bar> \<le> of_int (int_max dt)"
      by (rule order_trans)
    have "is_finite (PyFloat (round_to_double (y * np_sin x)))" by simp
    moreover have "\<bar>py_val (PyFloat (round_to_double (y * np_sin x)))\<bar> \<le> of_int (int_max dt)"
      using b by simp
    ultimately have "castable dt (np_round (PyFloat (round_to_double (y * np_sin x))))
      \<and> \<bar>cast_item c_cast dt (np_round (PyFloat (round_to_double (y * np_sin x))))\<bar>
          \<le> int_max dt"
      using cast_round_in_range[OF assms(1), of "PyFloat (round_to_double (y * np_sin x))" c_cast]
      by blast
    then show ?thesis by (simp only: v)
  qed
  then show ?thesis by (auto simp: list_all_iff)
qed

lemma floordiv_divisor_arange:
  "floordiv_divisor (np_arange_item p n) q = floordiv_divisor p q"
  by (cases p) simp_all

lemma divisor_too_large_arange:
  "divisor_too_large (np_arange_item p n) q = divisor_too_large p q"
  by (cases p) simp_all

lemma SquareWave_samples_eq:
  assumes "py_between 0 v 1" and "amplitude_raises dt v = False"
    and "mul_raises d (PyInt fr) = False" and "arange_raises (py_mul d (PyInt fr)) = False"
    and "k \<noteq> 0"
    and "divisor_too_large (py_mul d (PyInt fr)) (Fract 1 k * of_int fr / 2) = False"
    and "floordiv_divisor (py_mul d (PyInt fr)) (Fract 1 k * of_int fr / 2) \<noteq> 0"
  shows "SquareWave_samples c_cast (PyInt k) dt fr d v =
    Inr \<lparr>dtype = dt, ndim = 1,
         data = map (\<lambda>x. cast_item c_cast dt (np_round
                  (square_item (Fract 1 k * of_int fr / 2) (amplitude dt v) x)))
                (np_arange (py_mul d (PyInt fr)))\<rparr>"
proof -
  have i: "index_array d fr = Inr (np_arange (py_mul d (PyInt fr)))"
    using assms(3,4) by (simp add: index_array_def)
  have l: "\<not> list_ex (\<lambda>x. divisor_too_large x (Fract 1 k * of_int fr / 2))
            (np_arange (py_mul d (PyInt fr)))"
    using assms(6) by (simp add: list_ex_iff np_arange_def divisor_too_large_arange)
  have z: "\<not> list_ex (\<lambda>x. floordiv_divisor x (Fract 1 k * of_int fr / 2) = 0)
            (np_arange (py_mul d (PyInt fr)))"
    using assms(7) by (simp add: list_ex_iff np_arange_def floordiv_divisor_arange)
  from assms(1,2,5) i l z show ?thesis
    by (simp add: SquareWave_samples_def SquareWave_rounded_def Let_def astype_def comp_def)
qed

text \<open>
  Whatever the dtype, every element of the buffer a square wave generates is the cast of
  the rounded amplitude or the cast of its rounded negation.
\<close>

lemma square_generated_values:
  assumes "SquareWave_samples c_cast f dt fr d v = Inr a"
  shows "\<forall>x\<in>set (data a). x = cast_item c_cast dt (np_round (amplitude dt v))
                          \<or> x = cast_item c_cast dt (np_round (py_neg (amplitude dt v)))"
proof -
  from SquareWave_samples_Inr[OF assms] obtain ys where
    ys: "SquareWave_rounded f dt fr d v = Inr ys" and a: "a = astype c_cast ys dt"
    by blast
  from SquareWave_rounded_Inr[OF ys] obtain k where
    "ys = map (\<lambda>x. np_round (square_item (Fract 1 k * of_int fr / 2) (amplitude dt v) x))
             (np_arange (py_mul d (PyInt fr)))"
    by blast
  then have da: "data a = map (\<lambda>x. cast_item c_cast dt (np_round
             (square_item (Fract 1 k * of_int fr / 2) (amplitude dt v) x)))
             (np_arange (py_mul d (PyInt fr)))"
    by (simp add: a astype_def comp_def)
  have "cast_item c_cast dt (np_round (square_item q (amplitude dt v) x))
          = cast_item c_cast dt (np_round (amplitude dt v))
      \<or> cast_item c_cast dt (np_round (square_item q (amplitude dt v) x))
          = cast_item c_cast dt (np_round (py_neg (amplitude dt v)))" for q x
    using square_item_cases[of q "amplitude dt v" x] by (rule disjE) simp_all
  then show ?thesis unfolding da by auto
qed





text \<open>
  With the native dtype, or a dtype of one byte, the constructed object stores the
  buffer as generated, and the same holds of the stored samples.
\<close>

lemma square_stored_values:
  assumes "SquareWave_init c_cast f dt fr d v = Inr w" and "0 < itemsize dt"
    and "byteorder dt = CHR ''='' \<or> itemsize dt = 1"
  shows "\<forall>x\<in>set (data (samples w)).
           x = cast_item c_cast dt (np_round (amplitude dt v))
         \<or> x = cast_item c_cast dt (np_round (py_neg (amplitude dt v)))"
proof -
  from assms(1) obtain a where a: "SquareWave_samples c_cast f dt fr d v = Inr a"
    and w: "MonoWave_init a fr = Inr w"
    by (auto simp: SquareWave_init_def split: if_splits sum.splits)
  from SquareWave_samples_Inr[OF a] obtain ys where ay: "a = astype c_cast ys dt" by blast
  then have dt: "dtype a = dt" by (simp add: astype_def)
  from astype_range[OF assms(2), of c_cast ys] MonoWave_init_keeps[OF w] assms(3) dt ay
  have "samples w = a" by simp
  with square_generated_values[OF a] show ?thesis by simp
qed

section \<open>The claims\<close>




text \<open>
  Claim C2 (the square wave's formula).  The half period is the exact rational
  \<open>rate / (2 * frequency)\<close>, but with a float duration the index array holds floats and
  \<^verbatim>\<open>//\<close> divides doubles.  At the program's own parameters (440 Hz, int8, 44100 Hz,
  1.0 s, volume 0.5) sample 2205 is \<open>- 64\<close>, although \<open>floor (2205 / half_period) = 44\<close>
  is even; with the integer duration 1 the division is exact and the sample is \<open>64\<close>.
\<close>

theorem square_wave_boundary_sample:
  "\<exists>a b. SquareWave_samples c_cast (PyInt 440) int8 44100 (PyFloat 1) (PyFloat (1 / 2)) = Inr a
       \<and> length (data a) = 44100 \<and> data a ! 2205 = - 64
       \<and> SquareWave_samples c_cast (PyInt 440) int8 44100 (PyInt 1) (PyFloat (1 / 2)) = Inr b
       \<and> length (data b) = 44100 \<and> data b ! 2205 = 64
       \<and> Fract 1 440 * of_int 44100 / 2 = (2205 / 44 :: rat)
       \<and> \<lfloor>2205 / (2205 / 44) :: rat\<rfloor> = 44"
proof -
  define g where "g = (\<lambda>x. cast_item c_cast int8 (np_round
              (square_item (Fract 1 440 * of_int 44100 / 2)
              (amplitude int8 (PyFloat (1 / 2))) x)))"
  define pa where "pa = py_mul (PyFloat 1) (PyInt 44100)"
  define pb where "pb = py_mul (PyInt 1) (PyInt 44100)"
  have v: "py_between 0 (PyFloat (1 / 2)) 1" by simp
  have ar: "amplitude_raises int8 (PyFloat (1 / 2)) = False" by (simp add: model_eval)
  have ma: "mul_raises (PyFloat 1) (PyInt 44100) = False" by (simp add: model_eval)
  have mb: "mul_raises (PyInt 1) (PyInt 44100) = False" by simp
  have ra: "arange_raises (py_mul (PyFloat 1) (PyInt 44100)) = False" by (simp add: model_eval)
  have rb: "arange_raises (py_mul (PyInt 1) (PyInt 44100)) = False" by (simp add: model_eval)
  have nz: "(440::int) \<noteq> 0" by simp
  have la: "divisor_too_large (py_mul (PyFloat 1) (PyInt 44100))
              (Fract 1 440 * of_int 44100 / 2) = False"
    by (simp add: model_eval)
  have lb: "divisor_too_large (py_mul (PyInt 1) (PyInt 44100))
              (Fract 1 440 * of_int 44100 / 2) = False"
    by (simp add: model_eval)
  have za: "floordiv_divisor (py_mul (PyFloat 1) (PyInt 44100)) (Fract 1 440 * of_int 44100 / 2) \<noteq> 0"
    by (simp add: model_eval)
  have zb: "floordiv_divisor (py_mul (PyInt 1) (PyInt 44100)) (Fract 1 440 * of_int 44100 / 2) \<noteq> 0"
    by (simp add: model_eval)
  have a: "SquareWave_samples c_cast (PyInt 440) int8 44100 (PyFloat 1) (PyFloat (1 / 2))
             = Inr \<lparr>dtype = int8, ndim = 1, data = map g (np_arange pa)\<rparr>"
    unfolding g_def pa_def by (rule SquareWave_samples_eq[OF v ar ma ra nz la za])
  have b: "SquareWave_samples c_cast (PyInt 440) int8 44100 (PyInt 1) (PyFloat (1 / 2))
             = Inr \<lparr>dtype = int8, ndim = 1, data = map g (np_arange pb)\<rparr>"
    unfolding g_def pb_def by (rule SquareWave_samples_eq[OF v ar mb rb nz lb zb])
  have sa: "np_arange_size pa = 44100"
    unfolding pa_def by (simp add: model_eval)
  have sb: "np_arange_size pb = 44100"
    unfolding pb_def by (simp add: model_eval)
  have ea: "g (np_arange_item pa 2205) = - 64"
    unfolding g_def pa_def by (simp add: model_eval)
  have eb: "g (np_arange_item pb 2205) = 64"
    unfolding g_def pb_def by (simp add: model_eval)
  have la: "length (map g (np_arange pa)) = 44100"
    by (simp only: length_map length_np_arange sa)
  have lb: "length (map g (np_arange pb)) = 44100"
    by (simp only: length_map length_np_arange sb)
  have na: "map g (np_arange pa) ! 2205 = - 64"
  proof -
    have "2205 < np_arange_size pa" by (simp only: sa)
    then have "map g (np_arange pa) ! 2205 = g (np_arange_item pa 2205)"
      by (simp only: nth_map length_np_arange np_arange_nth)
    then show ?thesis by (simp only: ea)
  qed
  have nb: "map g (np_arange pb) ! 2205 = 64"
  proof -
    have "2205 < np_arange_size pb" by (simp only: sb)
    then have "map g (np_arange pb) ! 2205 = g (np_arange_item pb 2205)"
      by (simp only: nth_map length_np_arange np_arange_nth)
    then show ?thesis by (simp only: eb)
  qed
  have q: "Fract 1 440 * of_int 44100 / 2 = (2205 / 44 :: rat)"
    by (simp add: Fract_of_int_quotient)
  have fl: "\<lfloor>2205 / (2205 / 44) :: rat\<rfloor> = 44" by simp
  from a b la lb na nb q fl show ?thesis
    by (intro exI[of _ "\<lparr>dtype = int8, ndim = 1, data = map g (np_arange pa)\<rparr>"]
              exI[of _ "\<lparr>dtype = int8, ndim = 1, data = map g (np_arange pb)\<rparr>"])
       (simp only: ndarray.simps simp_thms)
qed

text \<open>
  Claim C3, as amended: the harmonic generator's sample count is the ceiling of
  \<open>duration * rate\<close>, the product taken as Python computes it (exact for an integer
  duration, rounded to a double for a float one), and zero when that is not positive.
  Where the product is an integer, this is the rounded product.
\<close>

theorem harmonic_sample_count:
  assumes "SimpleHarmonicWave_init np_sin c_cast f dt fr d v = Inr w"
  shows "length (data (samples w)) = nat \<lceil>py_val (py_mul d (PyInt fr))\<rceil>
       \<and> (py_val (py_mul d (PyInt fr)) = of_int k \<longrightarrow>
            length (data (samples w)) = nat (round_half_even (py_val (py_mul d (PyInt fr)))))"
proof -
  from assms obtain a where a: "SimpleHarmonicWave_samples np_sin c_cast f dt fr d v = Inr a"
    and w: "MonoWave_init a fr = Inr w"
    by (auto simp: SimpleHarmonicWave_init_def split: if_splits sum.splits)
  from SimpleHarmonicWave_samples_Inr[OF a] obtain ys where
    ys: "SimpleHarmonicWave_rounded np_sin f dt fr d v = Inr ys" and ay: "a = astype c_cast ys dt"
    by blast
  from SimpleHarmonicWave_rounded_Inr[OF ys] obtain ts where
    ts: "harmonic_phase f fr d = Inr ts" and yt: "length ys = length ts"
    by auto
  from harmonic_phase_Inr[OF ts]
  have i: "index_array d fr = Inr (np_arange (py_mul d (PyInt fr)))"
    and tl: "length ts = np_arange_size (py_mul d (PyInt fr))"
    by (simp_all add: length_np_arange)
  from index_array_Inr[OF i] have "is_finite (py_mul d (PyInt fr))"
    by (simp add: arange_finite)
  then have s: "np_arange_size (py_mul d (PyInt fr)) = nat \<lceil>py_val (py_mul d (PyInt fr))\<rceil>"
    by (rule np_arange_size_val)
  have "length (data a) = np_arange_size (py_mul d (PyInt fr))"
    by (simp add: ay astype_def yt tl)
  moreover from MonoWave_init_Inr[OF w] have "length (data (samples w)) = length (data a)"
    by (auto simp: length_byteswap)
  ultimately have "length (data (samples w)) = nat \<lceil>py_val (py_mul d (PyInt fr))\<rceil>"
    by (simp add: s)
  then show ?thesis by (auto simp: round_half_even_of_int)
qed

text \<open>
  One second at 8 Hz: eight samples.  At volume 0 every sample is 0 whatever the sine
  is; \<open>sgn\<close> stands in for it.
\<close>

theorem harmonic_sample_count_witness:
  "SimpleHarmonicWave_init sgn integer_indefinite (PyInt 1) int8 8 (PyFloat 1) (PyFloat 0)
     = Inr \<lparr>samples = \<lparr>dtype = int8, ndim = 1, data = [0, 0, 0, 0, 0, 0, 0, 0]\<rparr>,
            framerate = 8, step = 1 / 8, duration = 1\<rparr>
   \<and> length [0, 0, 0, 0, 0, 0, 0, 0 :: int] = nat \<lceil>py_val (py_mul (PyFloat 1) (PyInt 8))\<rceil>"
proof -
  have e: "SimpleHarmonicWave_init sgn integer_indefinite (PyInt 1) int8 8 (PyFloat 1) (PyFloat 0)
     = Inr \<lparr>samples = \<lparr>dtype = int8, ndim = 1, data = [0, 0, 0, 0, 0, 0, 0, 0]\<rparr>,
            framerate = 8, step = 1 / 8, duration = 1\<rparr>"
    by (simp add: model_eval)
  from harmonic_sample_count[OF e] e show ?thesis by simp
qed

text \<open>
  Claim C3 as first stated fails for a quarter second at 5 Hz: \<open>duration * rate\<close> is
  1.25, the buffer has two samples, and 1.25 rounds to 1.  The volume is 0 again, so
  that the buffer is the same for every sine.  It fails as well for 1.1 seconds at
  44100 Hz, where the product of the doubles is just above 48510 and the index array
  has 48511 elements.
\<close>

theorem harmonic_sample_count_counterexample:
  "SimpleHarmonicWave_init sgn integer_indefinite (PyInt 1) int8 5 (PyFloat (1 / 4)) (PyFloat 0)
     = Inr \<lparr>samples = \<lparr>dtype = int8, ndim = 1, data = [0, 0]\<rparr>,
            framerate = 5, step = 1 / 5, duration = 2 / 5\<rparr>
   \<and> length [0, 0 :: int] = 2 \<and> round_half_even (1 / 4 * 5) = 1 \<and> round (1 / 4 * 5 :: rat) = 1
   \<and> round_to_double (11 / 10) = 2476979795053773 / 2251799813685248
   \<and> np_arange_size (py_mul (PyFloat (2476979795053773 / 2251799813685248)) (PyInt 44100)) = 48511
   \<and> round_half_even (py_val (py_mul (PyFloat (2476979795053773 / 2251799813685248)) (PyInt 44100)))
       = 48510"
  by (simp add: model_eval round_def)

text \<open>
  Claim C4 (the two values of a square wave).  One cycle of two-byte samples at volume
  0.5: the amplitude 16383.5 rounds to 16384, and the buffer the generator computes holds
  16384 and \<open>- 16384\<close>.  With the native dtype the object stores that buffer.  With the
  dtype of the other byte order it stores 64 and 192, neither of them the amplitude or
  its negation: \<^verbatim>\<open>MonoWave.__init__\<close> swaps the bytes of the buffer and keeps the dtype.
\<close>

theorem square_wave_stored_swapped:
  "np_round (amplitude int16_swapped (PyFloat (1 / 2))) = PyFloat 16384
   \<and> SquareWave_samples c_cast (PyInt 1) int16_swapped 4 (PyFloat 1) (PyFloat (1 / 2))
       = Inr \<lparr>dtype = int16_swapped, ndim = 1, data = [16384, 16384, - 16384, - 16384]\<rparr>
   \<and> SquareWave_init c_cast (PyInt 1) int16_swapped 4 (PyFloat 1) (PyFloat (1 / 2))
       = Inr \<lparr>samples = \<lparr>dtype = int16_swapped, ndim = 1, data = [64, 64, 192, 192]\<rparr>,
              framerate = 4, step = 1 / 4, duration = 1\<rparr>
   \<and> SquareWave_init c_cast (PyInt 1) int16 4 (PyFloat 1) (PyFloat (1 / 2))
       = Inr \<lparr>samples = \<lparr>dtype = int16, ndim = 1, data = [16384, 16384, - 16384, - 16384]\<rparr>,
              framerate = 4, step = 1 / 4, duration = 1\<rparr>"
  by (simp add: model_eval)

text \<open>
  Claim C5: a dtype whose kind is not \<^verbatim>\<open>'i'\<close> makes both constructors raise
  \<^verbatim>\<open>ValueError\<close> whatever the other arguments are, hence before the amplitude, the
  index array or any sample is computed.
\<close>

theorem dtype_rejected:
  assumes "kind dt \<noteq> CHR ''i''"
  shows "SimpleHarmonicWave_init np_sin c_cast f dt fr d v = Inl ValueError
       \<and> SquareWave_init c_cast f dt fr d v = Inl ValueError"
  using assms by (simp add: SimpleHarmonicWave_init_def SquareWave_init_def)

text \<open>
  \<^verbatim>\<open>uint8\<close> and \<^verbatim>\<open>float32\<close> are rejected with a volume of 2 and a frequency of 0; with
  \<^verbatim>\<open>int8\<close> the same arguments reach the assertion and the division by zero.
\<close>

theorem dtype_rejected_witness:
  "kind uint8 \<noteq> CHR ''i'' \<and> kind float32 \<noteq> CHR ''i''
   \<and> SimpleHarmonicWave_init sgn integer_indefinite (PyInt 0) uint8 0 (PyFloat 1) (PyFloat 2)
       = Inl ValueError
   \<and> SquareWave_init integer_indefinite (PyInt 0) uint8 0 (PyFloat 1) (PyFloat 2) = Inl ValueError
   \<and> SimpleHarmonicWave_init sgn integer_indefinite (PyInt 0) float32 0 (PyFloat 1) (PyFloat 2)
       = Inl ValueError
   \<and> SquareWave_init integer_indefinite (PyInt 0) float32 0 (PyFloat 1) (PyFloat 2) = Inl ValueError
   \<and> SquareWave_init integer_indefinite (PyInt 0) int8 0 (PyFloat 1) (PyFloat 2) = Inl AssertionError
   \<and> SquareWave_init integer_indefinite (PyInt 0) int8 0 (PyFloat 1) (PyFloat 1)
       = Inl ZeroDivisionError"
proof -
  have u: "kind uint8 \<noteq> CHR ''i''" by (simp add: uint8_def)
  have f: "kind float32 \<noteq> CHR ''i''" by (simp add: float32_def)
  have a: "SquareWave_init integer_indefinite (PyInt 0) int8 0 (PyFloat 1) (PyFloat 2)
             = Inl AssertionError"
    by (simp add: model_eval)
  have z: "SquareWave_init integer_indefinite (PyInt 0) int8 0 (PyFloat 1) (PyFloat 1)
             = Inl ZeroDivisionError"
    by (simp add: model_eval)
  from dtype_rejected[OF u, of sgn integer_indefinite "PyInt 0" 0 "PyFloat 1" "PyFloat 2"]
       dtype_rejected[OF f, of sgn integer_indefinite "PyInt 0" 0 "PyFloat 1" "PyFloat 2"] u f a z
  show ?thesis by simp
qed

text \<open>
  Claim C6 (byte order).  For a two-byte array of the non-native order holding 1, 2, 256
  the constructor stores an array whose dtype still names that order and whose elements
  read 256, 512, 1: the bytes were swapped and the native view was dropped.
\<close>

theorem byte_order_not_normalised:
  "MonoWave_init \<lparr>dtype = \<lparr>kind = CHR ''i'', itemsize = 2, byteorder = CHR ''>''\<rparr>,
                  ndim = 1, data = [1, 2, 256]\<rparr> 8
     = Inr \<lparr>samples = \<lparr>dtype = \<lparr>kind = CHR ''i'', itemsize = 2, byteorder = CHR ''>''\<rparr>,
                        ndim = 1, data = [256, 512, 1]\<rparr>,
            framerate = 8, step = 1 / 8, duration = 3 / 8\<rparr>"
  by (simp add: model_eval)

text \<open>
  Claim C7: from a one-dimensional signed array and a positive rate the container is
  built; its step is the rational \<open>1 / rate\<close> and its duration the sample count times
  \<open>1 / rate\<close>, both computed in \<^typ>\<open>rat\<close>.
\<close>

theorem wave_metadata:
  assumes "kind (dtype a) = CHR ''i''" and "ndim a = 1" and "0 < fr"
  shows "\<exists>w. MonoWave_init a fr = Inr w \<and> framerate w = fr
           \<and> step w = 1 / of_int fr
           \<and> duration w = of_nat (length (data (samples w))) * (1 / of_int fr)
           \<and> length (data (samples w)) = length (data a)"
  using assms by (simp add: MonoWave_init_def Let_def Fract_of_int_quotient length_byteswap)

text \<open>Three int16 samples at 44100 Hz.\<close>

theorem wave_metadata_witness:
  "kind (dtype \<lparr>dtype = int16, ndim = 1, data = [3, - 4, 5]\<rparr>) = CHR ''i''
   \<and> ndim \<lparr>dtype = int16, ndim = 1, data = [3, - 4, 5]\<rparr> = 1 \<and> (0::int) < 44100
   \<and> MonoWave_init \<lparr>dtype = int16, ndim = 1, data = [3, - 4, 5]\<rparr> 44100
       = Inr \<lparr>samples = \<lparr>dtype = int16, ndim = 1, data = [3, - 4, 5]\<rparr>,
              framerate = 44100, step = 1 / 44100, duration = 3 * (1 / 44100)\<rparr>"
proof -
  have k: "kind (dtype \<lparr>dtype = int16, ndim = 1, data = [3, - 4, 5]\<rparr>) = CHR ''i''"
    by (simp add: int16_def)
  have n: "ndim \<lparr>dtype = int16, ndim = 1, data = [3, - 4, 5]\<rparr> = 1" by simp
  have p: "(0::int) < 44100" by simp
  from wave_metadata[OF k n p] obtain w where
    "MonoWave_init \<lparr>dtype = int16, ndim = 1, data = [3, - 4, 5]\<rparr> 44100 = Inr w"
    "step w = 1 / of_int 44100" by blast
  moreover have "MonoWave_init \<lparr>dtype = int16, ndim = 1, data = [3, - 4, 5]\<rparr> 44100
       = Inr \<lparr>samples = \<lparr>dtype = int16, ndim = 1, data = [3, - 4, 5]\<rparr>,
              framerate = 44100, step = 1 / 44100, duration = 3 * (1 / 44100)\<rparr>"
    by (simp add: model_eval)
  ultimately show ?thesis using k by simp
qed

text \<open>
  Claim C8: \<^verbatim>\<open>show\<close> and \<^verbatim>\<open>save\<close> leave the object as it was (samples, framerate, step
  and duration), whether \<^verbatim>\<open>save\<close> writes the file or raises.
\<close>

theorem methods_keep_object:
  "fst (MonoWave_show self title w) = self \<and> fst (MonoWave_save self filename w) = self"
  by (simp add: MonoWave_show_def MonoWave_save_def)

text \<open>
  Claim C9, as amended.  The volume is in \<open>[0, 1]\<close> and the dtype is at most eight bytes
  wide.  For a square wave, when the width is at most 6 bytes (int8, int16, int32, where
  \<open>2 ^ (8 * W - 1) - 1\<close> is a double), or the volume is an integer, or the volume is a
  float below 1.0, every rounded sample can be cast and every sample lies in
  \<open>[- (2 ^ (8 * W - 1) - 1), 2 ^ (8 * W - 1) - 1]\<close>.  For a harmonic wave the same holds
  when the width is at most 6 bytes, or the volume is the integer 0, or the volume is a
  float below 1.0, provided the platform's sine stays within \<open>[- 1, 1]\<close> and every
  element handed to the sine is finite.
\<close>

theorem samples_in_range:
  assumes "0 < itemsize dt" and "itemsize dt \<le> 8"
  shows "(\<forall>ys a. SquareWave_rounded f dt fr d v = Inr ys
              \<and> SquareWave_samples c_cast f dt fr d v = Inr a
              \<and> (itemsize dt \<le> 6 \<or> (\<exists>b. v = PyInt b)
                   \<or> (\<exists>x. v = PyFloat x \<and> round_to_double x = x \<and> x < 1))
            \<longrightarrow> list_all (castable dt) ys
              \<and> (\<forall>x\<in>set (data a). - (2 ^ (itemsize dt * 8 - 1) - 1) \<le> x
                                  \<and> x \<le> 2 ^ (itemsize dt * 8 - 1) - 1))
       \<and> (\<forall>ys ts a. SimpleHarmonicWave_rounded np_sin f dt fr d v = Inr ys
              \<and> SimpleHarmonicWave_samples np_sin c_cast f dt fr d v = Inr a
              \<and> harmonic_phase f fr d = Inr ts \<and> list_all is_finite ts
              \<and> (\<forall>x. \<bar>np_sin x\<bar> \<le> 1)
              \<and> (itemsize dt \<le> 6 \<or> v = PyInt 0
                   \<or> (\<exists>x. v = PyFloat x \<and> round_to_double x = x \<and> x < 1))
            \<longrightarrow> list_all (castable dt) ys
              \<and> (\<forall>x\<in>set (data a). - (2 ^ (itemsize dt * 8 - 1) - 1) \<le> x
                                  \<and> x \<le> 2 ^ (itemsize dt * 8 - 1) - 1))"
proof (intro conjI allI impI)
  fix ys a
  assume h: "SquareWave_rounded f dt fr d v = Inr ys
              \<and> SquareWave_samples c_cast f dt fr d v = Inr a
              \<and> (itemsize dt \<le> 6 \<or> (\<exists>b. v = PyInt b)
                   \<or> (\<exists>x. v = PyFloat x \<and> round_to_double x = x \<and> x < 1))"
  then have r: "SquareWave_rounded f dt fr d v = Inr ys"
    and c: "itemsize dt \<le> 6 \<or> (\<exists>b. v = PyInt b)
                   \<or> (\<exists>x. v = PyFloat x \<and> round_to_double x = x \<and> x < 1)"
    by simp_all
  from h have a: "a = astype c_cast ys dt" by (auto simp: SquareWave_samples_def)
  from SquareWave_rounded_Inr[OF r] obtain k where v: "py_between 0 v 1"
    and ys: "ys = map (\<lambda>x. np_round (square_item (Fract 1 k * of_int fr / 2) (amplitude dt v) x))
                    (np_arange (py_mul d (PyInt fr)))"
    by blast
  from amplitude_square[OF v assms(2) c]
  have fin: "is_finite (amplitude dt v)"
    and le: "\<bar>py_val (amplitude dt v)\<bar> \<le> of_int (int_max dt)"
    by simp_all
  from square_castable[OF assms(1) fin le, of "Fract 1 k * of_int fr / 2"
      "np_arange (py_mul d (PyInt fr))" c_cast]
  have 1: "list_all (castable dt) ys" and 2: "\<forall>y\<in>set (map (cast_item c_cast dt) ys). \<bar>y\<bar> \<le> int_max dt"
    unfolding ys by simp_all
  from 2 have "\<forall>x\<in>set (data a). - (2 ^ (itemsize dt * 8 - 1) - 1) \<le> x
                                  \<and> x \<le> 2 ^ (itemsize dt * 8 - 1) - 1"
    unfolding a astype_def by (auto simp: int_max_def)
  with 1 show "list_all (castable dt) ys" 
    and "\<forall>x\<in>set (data a). - (2 ^ (itemsize dt * 8 - 1) - 1) \<le> x
                                  \<and> x \<le> 2 ^ (itemsize dt * 8 - 1) - 1"
    by simp_all
next
  fix ys ts a
  assume h: "SimpleHarmonicWave_rounded np_sin f dt fr d v = Inr ys
              \<and> SimpleHarmonicWave_samples np_sin c_cast f dt fr d v = Inr a
              \<and> harmonic_phase f fr d = Inr ts \<and> list_all is_finite ts
              \<and> (\<forall>x. \<bar>np_sin x\<bar> \<le> 1)
              \<and> (itemsize dt \<le> 6 \<or> v = PyInt 0
                   \<or> (\<exists>x. v = PyFloat x \<and> round_to_double x = x \<and> x < 1))"
  then have r: "SimpleHarmonicWave_rounded np_sin f dt fr d v = Inr ys"
    and ts: "harmonic_phase f fr d = Inr ts" and fin: "list_all is_finite ts"
    and sb: "\<forall>x. \<bar>np_sin x\<bar> \<le> 1"
    and c: "itemsize dt \<le> 6 \<or> v = PyInt 0
              \<or> (\<exists>x. v = PyFloat x \<and> round_to_double x = x \<and> x < 1)"
    by simp_all
  from h have a: "a = astype c_cast ys dt" by (auto simp: SimpleHarmonicWave_samples_def)
  from SimpleHarmonicWave_rounded_Inr[OF r] ts have v: "py_between 0 v 1"
    and ys: "ys = map (\<lambda>t. np_round (harmonic_value np_sin (amplitude dt v) t)) ts"
    by auto
  from harmonic_phase_Inr[OF ts]
  have "ts = map (harmonic_phase_item (py_mul (PyFloat tau) f) fr)
                (np_arange (py_mul d (PyInt fr)))"
    by simp
  with fin have fl: "\<forall>t\<in>set ts. \<exists>x. t = PyFloat x"
    using harmonic_phase_item_float by (auto simp: list_all_iff)
  from amplitude_harmonic[OF v assms(2) c] obtain m j y where
    m: "0 \<le> m" "m < 2 ^ 53" "53 + j \<le> 1024"
    and le: "(of_int m * 2 ^ j :: rat) \<le> of_int (int_max dt)"
    and y: "py_float (amplitude dt v) = PyFloat y" "\<bar>y\<bar> \<le> of_int m * 2 ^ j"
    by blast
  from harmonic_castable[OF assms(1) sb m le y fl, of c_cast]
  have 1: "list_all (castable dt) ys" and 2: "\<forall>y\<in>set (map (cast_item c_cast dt) ys). \<bar>y\<bar> \<le> int_max dt"
    unfolding ys by simp_all
  from 2 have "\<forall>x\<in>set (data a). - (2 ^ (itemsize dt * 8 - 1) - 1) \<le> x
                                  \<and> x \<le> 2 ^ (itemsize dt * 8 - 1) - 1"
    unfolding a astype_def by (auto simp: int_max_def)
  with 1 show "list_all (castable dt) ys" 
    and "\<forall>x\<in>set (data a). - (2 ^ (itemsize dt * 8 - 1) - 1) \<le> x
                                  \<and> x \<le> 2 ^ (itemsize dt * 8 - 1) - 1"
    by simp_all
qed

text \<open>
  One cycle of int8 at full volume from both generators, and one cycle of int64 at the
  integer volume 1 from the square wave.  For the harmonic generator \<open>sgn\<close> stands in for
  the sine: it is bounded by 1, as the theorem asks.
\<close>

theorem samples_in_range_witness:
  "SquareWave_rounded (PyInt 1) int8 4 (PyFloat 1) (PyFloat 1)
     = Inr [PyFloat 127, PyFloat 127, PyFloat (- 127), PyFloat (- 127)]
   \<and> SquareWave_samples integer_indefinite (PyInt 1) int8 4 (PyFloat 1) (PyFloat 1)
     = Inr \<lparr>dtype = int8, ndim = 1, data = [127, 127, - 127, - 127]\<rparr>
   \<and> list_all (castable int8) [PyFloat 127, PyFloat 127, PyFloat (- 127), PyFloat (- 127)]
   \<and> list_all (\<lambda>x. - (2 ^ (itemsize int8 * 8 - 1) - 1) \<le> x \<and> x \<le> 2 ^ (itemsize int8 * 8 - 1) - 1)
        [127, 127, - 127, - 127 :: int]
   \<and> harmonic_phase (PyInt 1) 4 (PyFloat 1)
     = Inr [PyFloat 0, PyFloat (884279719003555 / 562949953421312),
            PyFloat (884279719003555 / 281474976710656),
            PyFloat (2652839157010665 / 562949953421312)]
   \<and> SimpleHarmonicWave_rounded sgn (PyInt 1) int8 4 (PyFloat 1) (PyFloat 1)
     = Inr [PyFloat 0, PyFloat 127, PyFloat 127, PyFloat 127]
   \<and> SimpleHarmonicWave_samples sgn integer_indefinite (PyInt 1) int8 4 (PyFloat 1) (PyFloat 1)
     = Inr \<lparr>dtype = int8, ndim = 1, data = [0, 127, 127, 127]\<rparr>
   \<and> list_all (castable int8) [PyFloat 0, PyFloat 127, PyFloat 127, PyFloat 127]
   \<and> list_all (\<lambda>x. - (2 ^ (itemsize int8 * 8 - 1) - 1) \<le> x \<and> x \<le> 2 ^ (itemsize int8 * 8 - 1) - 1)
        [0, 127, 127, 127 :: int]
   \<and> SquareWave_rounded (PyInt 1) int64 4 (PyFloat 1) (PyInt 1)
     = Inr [PyInt 9223372036854775807, PyInt 9223372036854775807,
            PyInt (- 9223372036854775807), PyInt (- 9223372036854775807)]
   \<and> SquareWave_samples integer_indefinite (PyInt 1) int64 4 (PyFloat 1) (PyInt 1)
     = Inr \<lparr>dtype = int64, ndim = 1,
            data = [9223372036854775807, 9223372036854775807,
                    - 9223372036854775807, - 9223372036854775807]\<rparr>
   \<and> list_all (\<lambda>x. - (2 ^ (itemsize int64 * 8 - 1) - 1) \<le> x \<and> x \<le> 2 ^ (itemsize int64 * 8 - 1) - 1)
        [9223372036854775807, 9223372036854775807,
         - 9223372036854775807, - 9223372036854775807 :: int]"
proof -
  have w: "0 < itemsize int8" "itemsize int8 \<le> 8" by (simp_all add: int8_def)
  have s: "\<forall>x::rat. \<bar>sgn x\<bar> \<le> 1" by (simp add: abs_sgn_eq)
  have c8: "itemsize int8 \<le> 6 \<or> (\<exists>b. PyFloat 1 = PyInt b)
      \<or> (\<exists>x. PyFloat 1 = PyFloat x \<and> round_to_double x = x \<and> x < 1)"
    by (simp add: int8_def)
  have h8: "itemsize int8 \<le> 6 \<or> PyFloat 1 = PyInt 0
      \<or> (\<exists>x. PyFloat 1 = PyFloat x \<and> round_to_double x = x \<and> x < 1)"
    by (simp add: int8_def)
  have r: "SquareWave_rounded (PyInt 1) int8 4 (PyFloat 1) (PyFloat 1)
     = Inr [PyFloat 127, PyFloat 127, PyFloat (- 127), PyFloat (- 127)]"
    by (simp add: model_eval)
  have e: "SquareWave_samples integer_indefinite (PyInt 1) int8 4 (PyFloat 1) (PyFloat 1)
     = Inr \<lparr>dtype = int8, ndim = 1, data = [127, 127, - 127, - 127]\<rparr>"
    by (simp add: model_eval)
  have p: "harmonic_phase (PyInt 1) 4 (PyFloat 1)
     = Inr [PyFloat 0, PyFloat (884279719003555 / 562949953421312),
            PyFloat (884279719003555 / 281474976710656),
            PyFloat (2652839157010665 / 562949953421312)]"
    by (simp add: model_eval)
  have f: "list_all is_finite [PyFloat 0, PyFloat (884279719003555 / 562949953421312),
            PyFloat (884279719003555 / 281474976710656),
            PyFloat (2652839157010665 / 562949953421312)]"
    by simp
  have hr: "SimpleHarmonicWave_rounded sgn (PyInt 1) int8 4 (PyFloat 1) (PyFloat 1)
     = Inr [PyFloat 0, PyFloat 127, PyFloat 127, PyFloat 127]"
    by (simp add: model_eval)
  have he: "SimpleHarmonicWave_samples sgn integer_indefinite (PyInt 1) int8 4 (PyFloat 1) (PyFloat 1)
     = Inr \<lparr>dtype = int8, ndim = 1, data = [0, 127, 127, 127]\<rparr>"
    by (simp add: model_eval)
  note t8 = samples_in_range[OF w, where f = "PyInt 1" and fr = 4 and d = "PyFloat 1"
      and v = "PyFloat 1" and c_cast = integer_indefinite and np_sin = sgn]
  from r e c8 have "SquareWave_rounded (PyInt 1) int8 4 (PyFloat 1) (PyFloat 1)
       = Inr [PyFloat 127, PyFloat 127, PyFloat (- 127), PyFloat (- 127)]
     \<and> SquareWave_samples integer_indefinite (PyInt 1) int8 4 (PyFloat 1) (PyFloat 1)
       = Inr \<lparr>dtype = int8, ndim = 1, data = [127, 127, - 127, - 127]\<rparr>
     \<and> (itemsize int8 \<le> 6 \<or> (\<exists>b. PyFloat 1 = PyInt b)
        \<or> (\<exists>x. PyFloat 1 = PyFloat x \<and> round_to_double x = x \<and> x < 1))"
    by (intro conjI)
  note u1 = t8[THEN conjunct1, THEN spec, THEN spec, THEN mp, OF this]
  from u1 have q1: "list_all (castable int8) [PyFloat 127, PyFloat 127, PyFloat (- 127), PyFloat (- 127)]"
    by (rule conjunct1)
  from u1[THEN conjunct2]
  have q1': "list_all (\<lambda>x. - (2 ^ (itemsize int8 * 8 - 1) - 1) \<le> x
                    \<and> x \<le> 2 ^ (itemsize int8 * 8 - 1) - 1) [127, 127, - 127, - 127 :: int]"
    by (simp only: list_all_iff ndarray.select_convs)
  from hr he p f s h8 have "SimpleHarmonicWave_rounded sgn (PyInt 1) int8 4 (PyFloat 1) (PyFloat 1)
       = Inr [PyFloat 0, PyFloat 127, PyFloat 127, PyFloat 127]
     \<and> SimpleHarmonicWave_samples sgn integer_indefinite (PyInt 1) int8 4 (PyFloat 1) (PyFloat 1)
       = Inr \<lparr>dtype = int8, ndim = 1, data = [0, 127, 127, 127]\<rparr>
     \<and> harmonic_phase (PyInt 1) 4 (PyFloat 1)
       = Inr [PyFloat 0, PyFloat (884279719003555 / 562949953421312),
            PyFloat (884279719003555 / 281474976710656),
            PyFloat (2652839157010665 / 562949953421312)]
     \<and> list_all is_finite [PyFloat 0, PyFloat (884279719003555 / 562949953421312),
            PyFloat (884279719003555 / 281474976710656),
            PyFloat (2652839157010665 / 562949953421312)]
     \<and> (\<forall>x::rat. \<bar>sgn x\<bar> \<le> 1)
     \<and> (itemsize int8 \<le> 6 \<or> PyFloat 1 = PyInt 0
        \<or> (\<exists>x. PyFloat 1 = PyFloat x \<and> round_to_double x = x \<and> x < 1))"
    by (intro conjI)
  note u2 = t8[THEN conjunct2, THEN spec, THEN spec, THEN spec, THEN mp, OF this]
  from u2 have q2: "list_all (castable int8) [PyFloat 0, PyFloat 127, PyFloat 127, PyFloat 127]"
    by (rule conjunct1)
  from u2[THEN conjunct2]
  have q2': "list_all (\<lambda>x. - (2 ^ (itemsize int8 * 8 - 1) - 1) \<le> x
                    \<and> x \<le> 2 ^ (itemsize int8 * 8 - 1) - 1) [0, 127, 127, 127 :: int]"
    by (simp only: list_all_iff ndarray.select_convs)
  have w64: "0 < itemsize int64" "itemsize int64 \<le> 8" by (simp_all add: int64_def)
  have c64: "itemsize int64 \<le> 6 \<or> (\<exists>b. PyInt 1 = PyInt b)
      \<or> (\<exists>x. PyInt 1 = PyFloat x \<and> round_to_double x = x \<and> x < 1)"
    by simp
  have r64: "SquareWave_rounded (PyInt 1) int64 4 (PyFloat 1) (PyInt 1)
     = Inr [PyInt 9223372036854775807, PyInt 9223372036854775807,
            PyInt (- 9223372036854775807), PyInt (- 9223372036854775807)]"
    by (simp add: model_eval)
  have e64: "SquareWave_samples integer_indefinite (PyInt 1) int64 4 (PyFloat 1) (PyInt 1)
     = Inr \<lparr>dtype = int64, ndim = 1,
            data = [9223372036854775807, 9223372036854775807,
                    - 9223372036854775807, - 9223372036854775807]\<rparr>"
    by (simp add: model_eval)
  from r64 e64 c64 have "SquareWave_rounded (PyInt 1) int64 4 (PyFloat 1) (PyInt 1)
       = Inr [PyInt 9223372036854775807, PyInt 9223372036854775807,
            PyInt (- 9223372036854775807), PyInt (- 9223372036854775807)]
     \<and> SquareWave_samples integer_indefinite (PyInt 1) int64 4 (PyFloat 1) (PyInt 1)
       = Inr \<lparr>dtype = int64, ndim = 1,
            data = [9223372036854775807, 9223372036854775807,
                    - 9223372036854775807, - 9223372036854775807]\<rparr>
     \<and> (itemsize int64 \<le> 6 \<or> (\<exists>b. PyInt 1 = PyInt b)
        \<or> (\<exists>x. PyInt 1 = PyFloat x \<and> round_to_double x = x \<and> x < 1))"
    by (intro conjI)
  from samples_in_range[OF w64, where f = "PyInt 1" and fr = 4 and d = "PyFloat 1"
      and v = "PyInt 1" and c_cast = integer_indefinite and np_sin = sgn,
      THEN conjunct1, THEN spec, THEN spec, THEN mp, OF this, THEN conjunct2]
  have q3: "list_all (\<lambda>x. - (2 ^ (itemsize int64 * 8 - 1) - 1) \<le> x
                    \<and> x \<le> 2 ^ (itemsize int64 * 8 - 1) - 1)
        [9223372036854775807, 9223372036854775807,
         - 9223372036854775807, - 9223372036854775807 :: int]"
    by (simp only: list_all_iff ndarray.select_convs)
  from r e q1 q1' p hr he q2 q2' r64 e64 q3 show ?thesis by (intro conjI)
qed

text \<open>
  Claim C9 as first stated fails for int64 at volume 1.0: the amplitude
  \<open>(2 ^ 63 - 1) * 1.0\<close> is the double \<open>2 ^ 63\<close>, above the largest int64, the cast of the
  first sample is out of range, and on x86-64 every sample of the buffer is \<open>- 2 ^ 63\<close>,
  below the claimed range.  A harmonic wave at the integer volume 1 has the same
  amplitude as a double, and its sample 1 is out of range when the sine of \<open>tau / 4\<close> is
  1, as it is for \<open>sgn\<close> here and for the sine of a C library.  The claim fails as well
  for a frequency of \<open>2 ^ 1023\<close>:
  \<^verbatim>\<open>tau * frequency\<close> is infinite, every element handed to the sine is an infinity or a
  NaN, and every sample is the cast of a NaN.
\<close>

theorem samples_in_range_counterexample:
  "py_between 0 (PyFloat 1) 1
   \<and> amplitude int64 (PyFloat 1) = PyFloat (2 ^ 63)
   \<and> int_max int64 = 2 ^ 63 - 1
   \<and> SquareWave_rounded (PyInt 1) int64 4 (PyFloat 1) (PyFloat 1)
       = Inr [PyFloat (2 ^ 63), PyFloat (2 ^ 63), PyFloat (- (2 ^ 63)), PyFloat (- (2 ^ 63))]
   \<and> castable int64 (PyFloat (2 ^ 63)) = False
   \<and> SquareWave_samples integer_indefinite (PyInt 1) int64 4 (PyFloat 1) (PyFloat 1)
       = Inr \<lparr>dtype = int64, ndim = 1,
              data = [- (2 ^ 63), - (2 ^ 63), - (2 ^ 63), - (2 ^ 63)]\<rparr>
   \<and> py_between 0 (PyInt 1) 1
   \<and> SimpleHarmonicWave_rounded sgn (PyInt 1) int64 4 (PyFloat 1) (PyInt 1)
       = Inr [PyFloat 0, PyFloat (2 ^ 63), PyFloat (2 ^ 63), PyFloat (2 ^ 63)]
   \<and> py_between 0 (PyFloat (1 / 2)) 1
   \<and> py_mul (PyFloat tau) (PyFloat (2 ^ 1023)) = PyNonFinite
   \<and> harmonic_phase (PyFloat (2 ^ 1023)) 8 (PyFloat 1)
       = Inr [PyNonFinite, PyNonFinite, PyNonFinite, PyNonFinite,
              PyNonFinite, PyNonFinite, PyNonFinite, PyNonFinite]
   \<and> SimpleHarmonicWave_rounded sgn (PyFloat (2 ^ 1023)) int16 8 (PyFloat 1) (PyFloat (1 / 2))
       = Inr [PyNonFinite, PyNonFinite, PyNonFinite, PyNonFinite,
              PyNonFinite, PyNonFinite, PyNonFinite, PyNonFinite]
   \<and> castable int16 PyNonFinite = False"
proof -
  have a: "amplitude int64 (PyFloat 1) = PyFloat (2 ^ 63)" by (simp add: model_eval)
  have m: "int_max int64 = 2 ^ 63 - 1" by (simp add: model_eval)
  have r: "SquareWave_rounded (PyInt 1) int64 4 (PyFloat 1) (PyFloat 1)
       = Inr [PyFloat (2 ^ 63), PyFloat (2 ^ 63), PyFloat (- (2 ^ 63)), PyFloat (- (2 ^ 63))]"
    by (simp add: model_eval)
  have c: "castable int64 (PyFloat (2 ^ 63)) = False" by (simp add: model_eval)
  have e: "SquareWave_samples integer_indefinite (PyInt 1) int64 4 (PyFloat 1) (PyFloat 1)
       = Inr \<lparr>dtype = int64, ndim = 1,
              data = [- (2 ^ 63), - (2 ^ 63), - (2 ^ 63), - (2 ^ 63)]\<rparr>"
    by (simp add: model_eval)
  have i: "SimpleHarmonicWave_rounded sgn (PyInt 1) int64 4 (PyFloat 1) (PyInt 1)
       = Inr [PyFloat 0, PyFloat (2 ^ 63), PyFloat (2 ^ 63), PyFloat (2 ^ 63)]"
    by (simp add: model_eval)
  have "2 ^ 1024 \<le> \<bar>tau * 2 ^ 1023\<bar>" by (simp add: tau_def)
  then have "to_double (tau * 2 ^ 1023) = PyNonFinite" by (rule to_double_overflow)
  then have w: "py_mul (PyFloat tau) (PyFloat (2 ^ 1023)) = PyNonFinite"
    by (simp only: py_mul.simps py_float.simps float_mul.simps)
  have p: "harmonic_phase (PyFloat (2 ^ 1023)) 8 (PyFloat 1)
       = Inr [PyNonFinite, PyNonFinite, PyNonFinite, PyNonFinite,
              PyNonFinite, PyNonFinite, PyNonFinite, PyNonFinite]"
    unfolding harmonic_phase_def w by (simp add: model_eval)
  have h: "SimpleHarmonicWave_rounded sgn (PyFloat (2 ^ 1023)) int16 8 (PyFloat 1) (PyFloat (1 / 2))
       = Inr [PyNonFinite, PyNonFinite, PyNonFinite, PyNonFinite,
              PyNonFinite, PyNonFinite, PyNonFinite, PyNonFinite]"
    unfolding SimpleHarmonicWave_rounded_def p by (simp add: model_eval)
  from a m r c e i w p h show ?thesis by simp
qed

end
